theory Spec2Isabelle
  imports Main "HOL-Library.AList"
begin

section \<open>Validation of micropayment channel states (counterpartylib/lib/micropayments/validate.py)\<close>

subsection \<open>Python values and exceptions\<close>

text \<open>
  The values the validators receive are Python objects decoded from JSON: \<open>None\<close>,
  booleans, integers, \<open>str\<close>, \<open>list\<close> and \<open>dict\<close> (with string keys, kept in
  insertion order; a lookup finds the first binding of a key).

  A \<open>str\<close> is modelled by \<open>string\<close>. The regular expressions of this module accept
  ASCII characters only, so a string they accept has as many characters as bytes.
\<close>

datatype pyval =
    PNone
  | PBool bool
  | PInt int
  | PStr string
  | PList "pyval list"
  | PDict "(string \<times> pyval) list"

text \<open>
  The exceptions of the module. \<open>AssertionError\<close> carries the line of the failed
  \<open>assert\<close> statement in validate.py, which is what the traceback of the bare
  \<open>AssertionError\<close> tells apart. \<open>ValidationError\<close> is the one of jsonschema;
  \<open>KeyError\<close> and \<open>TypeError\<close> are those of a subscript; \<open>CollaboratorError\<close>
  stands for any exception of another module (micropayment_core, the ledger API).
\<close>

datatype error =
    InvalidString pyval
  | InvalidHexData pyval
  | AssetDoesNotExist pyval
  | SourceMissmatch string string
  | DestinationMissmatch string string
  | AssetMissmatch pyval pyval
  | InvalidSignature pyval
  | IncorrectPubKey string string
  | IncorrectSpendSecretHash string string
  | ValueError string
  | AssertionError nat
  | ValidationError
  | KeyError string
  | TypeError
  | CollaboratorError string

subsection \<open>Regular expressions, as Python's \<open>re\<close> reads them\<close>

text \<open>
  The two patterns of the module, \<open>^[0-9a-f]*$\<close> and \<open>^[a-f0-9]*$\<close>, are sequences
  of three atoms: the anchor \<open>^\<close>, a starred character class, and the anchor \<open>$\<close>.
  Without the MULTILINE flag \<open>^\<close> matches at the start of the string only, and \<open>$\<close>
  matches at the end of the string and just before a newline that ends the string.
  \<open>re_at p at_start s\<close> matches \<open>p\<close> against a prefix of the rest \<open>s\<close> of the
  subject; the star is greedy and backtracks.
\<close>

datatype atom = Bol | Eol | StarClass "char list"

fun re_at :: "atom list \<Rightarrow> bool \<Rightarrow> string \<Rightarrow> bool" where
  "re_at [] at_start s = True"
| "re_at (Bol # r) at_start s = (at_start \<and> re_at r at_start s)"
| "re_at (Eol # r) at_start s = ((s = [] \<or> s = [CHR 0x0A]) \<and> re_at r at_start s)"
| "re_at (StarClass cs # r) at_start [] = re_at r at_start []"
| "re_at (StarClass cs # r) at_start (c # s) =
     ((c \<in> set cs \<and> re_at (StarClass cs # r) False s) \<or> re_at r at_start (c # s))"

definition re_match :: "atom list \<Rightarrow> string \<Rightarrow> bool" where
  "re_match p s = re_at p True s"

fun re_search_tail :: "atom list \<Rightarrow> string \<Rightarrow> bool" where
  "re_search_tail p [] = False"
| "re_search_tail p (c # s) = (re_at p False s \<or> re_search_tail p s)"

definition re_search :: "atom list \<Rightarrow> string \<Rightarrow> bool" where
  "re_search p s = (re_at p True s \<or> re_search_tail p s)"

text \<open>The pattern \<open>^[0-9a-f]*$\<close> of \<open>is_hex\<close> and the pattern \<open>^[a-f0-9]*$\<close> of \<open>_TYPE_HEX\<close>.\<close>

definition HEX_PATTERN :: "atom list" where
  "HEX_PATTERN = [Bol, StarClass ''0123456789abcdef'', Eol]"

definition TYPE_HEX_PATTERN :: "atom list" where
  "TYPE_HEX_PATTERN = [Bol, StarClass ''abcdef0123456789'', Eol]"

subsection \<open>Primitive validators\<close>

definition is_string :: "pyval \<Rightarrow> error + unit" where
  "is_string s = (case s of PStr _ \<Rightarrow> Inr () | _ \<Rightarrow> Inl (InvalidString s))"

definition is_hex :: "pyval \<Rightarrow> error + unit" where
  "is_hex data =
     (case is_string data of
        Inl e \<Rightarrow> Inl e
      | Inr _ \<Rightarrow>
          (case data of
             PStr s \<Rightarrow>
               if \<not> re_match HEX_PATTERN s then Inl (InvalidHexData data)
               else if \<not> (length s mod 2 = 0) then Inl (InvalidHexData data)
               else Inr ()
           | _ \<Rightarrow> Inl TypeError))"

subsection \<open>The schema of a channel state, and jsonschema on it\<close>

text \<open>
  \<open>_STATE_SCHEMA\<close> uses the keywords \<open>type\<close> (string, array, object), \<open>pattern\<close>,
  \<open>items\<close>, \<open>properties\<close>, \<open>required\<close> and \<open>additionalProperties\<close>. A schema
  of that fragment is a value of \<open>schema\<close>; \<open>conforms\<close> is what jsonschema decides
  for it: \<open>pattern\<close> is tried with \<open>re.search\<close>, \<open>properties\<close> constrains the
  keys that are present, \<open>required\<close> the keys that must be, and
  \<open>additionalProperties: False\<close> forbids every other key. The schemas of the
  items of \<open>commits_active\<close> and \<open>commits_revoked\<close>, written in place in the
  source, have a name here.
\<close>

datatype schema =
    SString "atom list option"
  | SArray schema
  | SObject "(string \<times> schema) list" "string list" bool

fun conforms :: "schema \<Rightarrow> pyval \<Rightarrow> bool" where
  "conforms (SString pattern) v =
     (case v of
        PStr s \<Rightarrow> (case pattern of None \<Rightarrow> True | Some p \<Rightarrow> re_search p s)
      | _ \<Rightarrow> False)"
| "conforms (SArray items) v =
     (case v of PList xs \<Rightarrow> list_all (conforms items) xs | _ \<Rightarrow> False)"
| "conforms (SObject properties required additional) v =
     (case v of
        PDict kvs \<Rightarrow>
          list_all (\<lambda>(k, s). case map_of kvs k of None \<Rightarrow> True | Some x \<Rightarrow> conforms s x)
            properties
          \<and> list_all (\<lambda>k. k \<in> fst ` set kvs) required
          \<and> (additional \<or> list_all (\<lambda>(k, x). k \<in> fst ` set properties) kvs)
      | _ \<Rightarrow> False)"

definition TYPE_HEX :: schema where
  "TYPE_HEX = SString (Some TYPE_HEX_PATTERN)"

definition ACTIVE_SCHEMA :: schema where
  "ACTIVE_SCHEMA =
     SObject [(''rawtx'', TYPE_HEX), (''script'', TYPE_HEX)] [''rawtx'', ''script''] False"

definition REVOKED_SCHEMA :: schema where
  "REVOKED_SCHEMA =
     SObject [(''script'', TYPE_HEX), (''revoke_secret'', TYPE_HEX)]
       [''script'', ''revoke_secret''] False"

definition STATE_SCHEMA :: schema where
  "STATE_SCHEMA =
     SObject
       [(''asset'', SString None),
        (''deposit_script'', TYPE_HEX),
        (''commits_requested'', SArray TYPE_HEX),
        (''commits_active'', SArray ACTIVE_SCHEMA),
        (''commits_revoked'', SArray REVOKED_SCHEMA)]
       [''asset'', ''deposit_script'', ''commits_requested'', ''commits_active'',
        ''commits_revoked'']
       False"

definition jsonschema_validate :: "pyval \<Rightarrow> schema \<Rightarrow> error + unit" where
  "jsonschema_validate instance schema =
     (if conforms schema instance then Inr () else Inl ValidationError)"

subsection \<open>Subscripts, iteration and sets of Python values\<close>

definition getitem :: "pyval \<Rightarrow> string \<Rightarrow> error + pyval" where
  "getitem v k =
     (case v of
        PDict kvs \<Rightarrow> (case map_of kvs k of Some x \<Rightarrow> Inr x | None \<Rightarrow> Inl (KeyError k))
      | _ \<Rightarrow> Inl TypeError)"

definition iterate :: "pyval \<Rightarrow> error + pyval list" where
  "iterate v =
     (case v of
        PList xs \<Rightarrow> Inr xs
      | PStr s \<Rightarrow> Inr (map (\<lambda>c. PStr [c]) s)
      | PDict kvs \<Rightarrow> Inr (map (\<lambda>(k, x). PStr k) kvs)
      | _ \<Rightarrow> Inl TypeError)"

fun map_raising :: "('a \<Rightarrow> error + 'b) \<Rightarrow> 'a list \<Rightarrow> error + 'b list" where
  "map_raising f [] = Inr []"
| "map_raising f (x # xs) =
     (case f x of
        Inl e \<Rightarrow> Inl e
      | Inr y \<Rightarrow> (case map_raising f xs of Inl e \<Rightarrow> Inl e | Inr ys \<Rightarrow> Inr (y # ys)))"

text \<open>\<open>[c["script"] for c in state_data[key]]\<close>\<close>

definition scripts_of :: "pyval \<Rightarrow> string \<Rightarrow> error + pyval list" where
  "scripts_of state_data key =
     (case getitem state_data key of
        Inl e \<Rightarrow> Inl e
      | Inr commits \<Rightarrow>
          (case iterate commits of
             Inl e \<Rightarrow> Inl e
           | Inr cs \<Rightarrow> map_raising (\<lambda>c. getitem c ''script'') cs))"

text \<open>
  \<open>len(set(xs))\<close>: a list or a dict is not hashable, and the other values here are
  equal in Python when they are the same string.
\<close>

definition hashable :: "pyval \<Rightarrow> bool" where
  "hashable v = (case v of PList _ \<Rightarrow> False | PDict _ \<Rightarrow> False | _ \<Rightarrow> True)"

definition len_set :: "pyval list \<Rightarrow> error + nat" where
  "len_set xs = (if list_all hashable xs then Inr (length (remdups xs)) else Inl TypeError)"

subsection \<open>Collaborators and the calls made to them\<close>

text \<open>
  The ledger API behind \<open>dispatcher.get(name)\<close> and the functions of
  \<open>micropayment_core.scripts\<close> and \<open>micropayment_core.util\<close> are code of other
  packages: they are parameters here, each a function from its arguments to the value
  it returns or the exception it raises. \<open>load_tx\<close> stands for
  \<open>util.load_tx(get_rawtx, rawtx).bad_signature_count()\<close>.
\<close>

record dispatcher =
  get_assets :: "error + pyval list"
  get_tx_info :: "pyval \<Rightarrow> error + (string \<times> string \<times> int \<times> int \<times> string option)"
  unpack :: "string \<Rightarrow> error + (int \<times> pyval)"
  getrawtransaction :: "pyval \<Rightarrow> error + string"

record core =
  validate_deposit_script :: "pyval \<Rightarrow> error + unit"
  validate_commit_script :: "pyval \<Rightarrow> error + unit"
  get_deposit_payee_pubkey :: "pyval \<Rightarrow> error + string"
  get_deposit_payer_pubkey :: "pyval \<Rightarrow> error + string"
  get_commit_payee_pubkey :: "pyval \<Rightarrow> error + string"
  get_commit_payer_pubkey :: "pyval \<Rightarrow> error + string"
  get_deposit_spend_secret_hash :: "pyval \<Rightarrow> error + string"
  get_commit_spend_secret_hash :: "pyval \<Rightarrow> error + string"
  get_commit_revoke_secret_hash :: "pyval \<Rightarrow> error + string"
  script_address :: "pyval \<Rightarrow> string \<Rightarrow> error + string"
  hash160hex :: "pyval \<Rightarrow> error + string"
  load_tx :: "(pyval \<Rightarrow> error + string) \<Rightarrow> pyval \<Rightarrow> error + nat"

datatype call =
    Get_assets
  | Get_tx_info pyval
  | Unpack string
  | Load_tx pyval
  | Validate_deposit_script pyval
  | Validate_commit_script pyval
  | Get_deposit_payee_pubkey pyval
  | Get_deposit_payer_pubkey pyval
  | Get_commit_payee_pubkey pyval
  | Get_commit_payer_pubkey pyval
  | Get_deposit_spend_secret_hash pyval
  | Get_commit_spend_secret_hash pyval
  | Get_commit_revoke_secret_hash pyval
  | Script_address pyval string
  | Hash160hex pyval

text \<open>
  A validator that calls collaborators returns its result, or the exception raised,
  together with the calls it has made, in order.
\<close>

type_synonym 'a traced = "(error + 'a) \<times> call list"

definition ok :: "'a \<Rightarrow> 'a traced" where
  "ok x = (Inr x, [])"

definition raise :: "error \<Rightarrow> 'a traced" where
  "raise e = (Inl e, [])"

definition plain :: "error + 'a \<Rightarrow> 'a traced" where
  "plain r = (r, [])"

definition call :: "call \<Rightarrow> error + 'a \<Rightarrow> 'a traced" where
  "call c r = (r, [c])"

definition and_then :: "'a traced \<Rightarrow> ('a \<Rightarrow> 'b traced) \<Rightarrow> 'b traced" where
  "and_then m f =
     (case m of
        (Inl e, t) \<Rightarrow> (Inl e, t)
      | (Inr x, t) \<Rightarrow> (case f x of (r, t') \<Rightarrow> (r, t @ t')))"

subsection \<open>Script, asset and transaction validators\<close>

definition commit_script :: "core \<Rightarrow> pyval \<Rightarrow> pyval \<Rightarrow> unit traced" where
  "commit_script core commit_script_hex deposit_script_hex =
     and_then (plain (is_hex commit_script_hex)) (\<lambda>_.
     and_then (plain (is_hex deposit_script_hex)) (\<lambda>_.
     and_then
       (call (Validate_deposit_script deposit_script_hex)
          (validate_deposit_script core deposit_script_hex)) (\<lambda>_.
     and_then
       (call (Validate_commit_script commit_script_hex)
          (validate_commit_script core commit_script_hex)) (\<lambda>_.
     and_then
       (call (Get_deposit_payee_pubkey deposit_script_hex)
          (get_deposit_payee_pubkey core deposit_script_hex)) (\<lambda>deposit_payee_pubkey.
     and_then
       (call (Get_commit_payee_pubkey commit_script_hex)
          (get_commit_payee_pubkey core commit_script_hex)) (\<lambda>commit_payee_pubkey.
     if deposit_payee_pubkey \<noteq> commit_payee_pubkey
       then raise (IncorrectPubKey commit_payee_pubkey deposit_payee_pubkey) else
     and_then
       (call (Get_deposit_payer_pubkey deposit_script_hex)
          (get_deposit_payer_pubkey core deposit_script_hex)) (\<lambda>deposit_payer_pubkey.
     and_then
       (call (Get_commit_payer_pubkey commit_script_hex)
          (get_commit_payer_pubkey core commit_script_hex)) (\<lambda>commit_payer_pubkey.
     if deposit_payer_pubkey \<noteq> commit_payer_pubkey
       then raise (IncorrectPubKey commit_payer_pubkey deposit_payer_pubkey) else
     and_then
       (call (Get_deposit_spend_secret_hash deposit_script_hex)
          (get_deposit_spend_secret_hash core deposit_script_hex)) (\<lambda>deposit_spend_hash.
     and_then
       (call (Get_commit_spend_secret_hash commit_script_hex)
          (get_commit_spend_secret_hash core commit_script_hex)) (\<lambda>commit_spend_hash.
     if deposit_spend_hash \<noteq> commit_spend_hash
       then raise (IncorrectSpendSecretHash commit_spend_hash deposit_spend_hash)
     else ok ()))))))))))"

definition is_asset :: "dispatcher \<Rightarrow> pyval \<Rightarrow> unit traced" where
  "is_asset dispatcher asset =
     and_then (plain (is_string asset)) (\<lambda>_.
     and_then (call Get_assets (get_assets dispatcher)) (\<lambda>entries.
     and_then (plain (map_raising (\<lambda>e. getitem e ''asset_name'') entries)) (\<lambda>assets.
     if asset \<notin> set assets then raise (AssetDoesNotExist asset) else ok ())))"

record send_tx =
  src :: string
  dest :: string
  btc :: int
  fee :: int
  data :: string
  message_type_id :: int
  unpacked :: pyval

text \<open>
  An expected value that is left out is \<open>None\<close>: \<open>PNone\<close> for the asset, which
  \<open>is_state\<close> takes from the state as it is, and \<open>None\<close> for the two addresses.
\<close>

definition is_send_tx ::
  "core \<Rightarrow> dispatcher \<Rightarrow> pyval \<Rightarrow> pyval \<Rightarrow> string option \<Rightarrow> string option \<Rightarrow> bool
     \<Rightarrow> send_tx traced" where
  "is_send_tx core dispatcher rawtx expected_asset expected_src expected_dest
       validate_signature =
     and_then (call (Get_tx_info rawtx) (get_tx_info dispatcher rawtx))
       (\<lambda>(src, dest, btc, fee, data).
     (case data of
        None \<Rightarrow> raise (ValueError ''No data for given transaction!'')
      | Some payload \<Rightarrow>
     if payload = [] then raise (ValueError ''No data for given transaction!'') else
     and_then (call (Unpack payload) (unpack dispatcher payload))
       (\<lambda>(message_type_id, unpacked).
     if message_type_id \<noteq> 0 then raise (AssertionError 173) else
     if expected_src \<noteq> None \<and> expected_src \<noteq> Some src
       then raise (SourceMissmatch (the expected_src) src) else
     if expected_dest \<noteq> None \<and> expected_dest \<noteq> Some dest
       then raise (DestinationMissmatch (the expected_dest) dest) else
     and_then
       (if expected_asset = PNone then ok ()
        else
          and_then (plain (getitem unpacked ''asset'')) (\<lambda>found.
          if expected_asset \<noteq> found then raise (AssetMissmatch expected_asset found)
          else ok ()))
       (\<lambda>_.
     and_then
       (if validate_signature then
          and_then
            (call (Load_tx rawtx) (load_tx core (getrawtransaction dispatcher) rawtx))
            (\<lambda>bad_signature_count.
          if bad_signature_count \<noteq> 0 then raise (InvalidSignature rawtx) else ok ())
        else ok ())
       (\<lambda>_.
     ok \<lparr>src = src, dest = dest, btc = btc, fee = fee, data = payload,
         message_type_id = message_type_id, unpacked = unpacked\<rparr>)))))"

definition is_commit_rawtx ::
  "core \<Rightarrow> dispatcher \<Rightarrow> pyval \<Rightarrow> pyval \<Rightarrow> pyval \<Rightarrow> pyval \<Rightarrow> string \<Rightarrow> bool
     \<Rightarrow> unit traced" where
  "is_commit_rawtx core dispatcher commit_rawtx expected_asset expected_deposit_script_hex
       expected_commit_script_hex netcode validate_signature =
     and_then
       (call (Script_address expected_commit_script_hex netcode)
          (script_address core expected_commit_script_hex netcode)) (\<lambda>commit_address.
     and_then
       (call (Script_address expected_deposit_script_hex netcode)
          (script_address core expected_deposit_script_hex netcode)) (\<lambda>deposit_address.
     and_then
       (is_send_tx core dispatcher commit_rawtx expected_asset
          (Some deposit_address) (Some commit_address) validate_signature) (\<lambda>_.
     ok ())))"

subsection \<open>The channel state validator\<close>

text \<open>The loop over \<open>state_data["commits_revoked"]\<close>.\<close>

fun for_revoked :: "core \<Rightarrow> string \<Rightarrow> pyval list \<Rightarrow> unit traced" where
  "for_revoked core deposit_spend_hash [] = ok ()"
| "for_revoked core deposit_spend_hash (revoked # rest) =
     and_then (plain (getitem revoked ''script'')) (\<lambda>script.
     and_then (call (Validate_commit_script script) (validate_commit_script core script))
       (\<lambda>_.
     and_then (plain (getitem revoked ''script'')) (\<lambda>script.
     and_then
       (call (Get_commit_spend_secret_hash script) (get_commit_spend_secret_hash core script))
       (\<lambda>r_spend_hash.
     if r_spend_hash \<noteq> deposit_spend_hash then raise (AssertionError 237) else
     and_then (plain (getitem revoked ''script'')) (\<lambda>script.
     and_then
       (call (Get_commit_revoke_secret_hash script)
          (get_commit_revoke_secret_hash core script)) (\<lambda>revoke_hash.
     and_then (plain (getitem revoked ''revoke_secret'')) (\<lambda>revoke_secret.
     and_then (call (Hash160hex revoke_secret) (hash160hex core revoke_secret)) (\<lambda>h.
     if revoke_hash \<noteq> h then raise (AssertionError 241) else
     for_revoked core deposit_spend_hash rest))))))))"

text \<open>The loop over \<open>state_data["commits_active"]\<close>.\<close>

fun for_active ::
  "core \<Rightarrow> dispatcher \<Rightarrow> pyval \<Rightarrow> pyval \<Rightarrow> string \<Rightarrow> string \<Rightarrow> pyval list
     \<Rightarrow> unit traced" where
  "for_active core dispatcher state_data deposit_script deposit_spend_hash netcode [] =
     ok ()"
| "for_active core dispatcher state_data deposit_script deposit_spend_hash netcode
       (active # rest) =
     and_then (plain (getitem active ''script'')) (\<lambda>script.
     and_then (call (Validate_commit_script script) (validate_commit_script core script))
       (\<lambda>_.
     and_then (plain (getitem active ''script'')) (\<lambda>script.
     and_then
       (call (Get_commit_spend_secret_hash script) (get_commit_spend_secret_hash core script))
       (\<lambda>a_spend_hash.
     if a_spend_hash \<noteq> deposit_spend_hash then raise (AssertionError 251) else
     and_then (plain (getitem active ''rawtx'')) (\<lambda>rawtx.
     and_then (plain (getitem state_data ''asset'')) (\<lambda>asset.
     and_then (plain (getitem active ''script'')) (\<lambda>script.
     and_then
       (is_commit_rawtx core dispatcher rawtx asset deposit_script script netcode False)
       (\<lambda>_.
     for_active core dispatcher state_data deposit_script deposit_spend_hash netcode
       rest))))))))"

definition is_state :: "core \<Rightarrow> dispatcher \<Rightarrow> pyval \<Rightarrow> string \<Rightarrow> unit traced" where
  "is_state core dispatcher state_data netcode =
     and_then (plain (jsonschema_validate state_data STATE_SCHEMA)) (\<lambda>_.
     and_then (plain (scripts_of state_data ''commits_active'')) (\<lambda>s_active.
     and_then (plain (scripts_of state_data ''commits_revoked'')) (\<lambda>s_revoked.
     and_then (plain (len_set (s_active @ s_revoked))) (\<lambda>n.
     if \<not> (length (s_active @ s_revoked) = n) then raise (AssertionError 218) else
     and_then (plain (getitem state_data ''asset'')) (\<lambda>asset.
     and_then (is_asset dispatcher asset) (\<lambda>_.
     and_then (plain (getitem state_data ''deposit_script'')) (\<lambda>deposit_script.
     and_then
       (call (Script_address deposit_script netcode)
          (script_address core deposit_script netcode)) (\<lambda>deposit_address.
     and_then
       (call (Get_deposit_spend_secret_hash deposit_script)
          (get_deposit_spend_secret_hash core deposit_script)) (\<lambda>deposit_spend_hash.
     and_then
       (call (Validate_deposit_script deposit_script)
          (validate_deposit_script core deposit_script)) (\<lambda>_.
     and_then
       (plain (case getitem state_data ''commits_revoked'' of
                  Inl e \<Rightarrow> Inl e | Inr commits \<Rightarrow> iterate commits)) (\<lambda>commits_revoked.
     and_then (for_revoked core deposit_spend_hash commits_revoked) (\<lambda>_.
     and_then
       (plain (case getitem state_data ''commits_active'' of
                  Inl e \<Rightarrow> Inl e | Inr commits \<Rightarrow> iterate commits)) (\<lambda>commits_active.
     for_active core dispatcher state_data deposit_script deposit_spend_hash netcode
       commits_active)))))))))))))"

subsection \<open>Reading a channel state\<close>

text \<open>
  The fields of a state as total functions, for stating properties: on a state that
  conforms to the schema they are what the subscripts and loops of \<open>is_state\<close> read.
\<close>

definition field :: "pyval \<Rightarrow> string \<Rightarrow> pyval" where
  "field v k = (case getitem v k of Inr x \<Rightarrow> x | Inl _ \<Rightarrow> PNone)"

definition elements :: "pyval \<Rightarrow> pyval list" where
  "elements v = (case iterate v of Inr xs \<Rightarrow> xs | Inl _ \<Rightarrow> [])"

definition commits_active :: "pyval \<Rightarrow> pyval list" where
  "commits_active state_data = elements (field state_data ''commits_active'')"

definition commits_revoked :: "pyval \<Rightarrow> pyval list" where
  "commits_revoked state_data = elements (field state_data ''commits_revoked'')"

definition commit_scripts :: "pyval \<Rightarrow> pyval list" where
  "commit_scripts state_data =
     map (\<lambda>c. field c ''script'') (commits_active state_data @ commits_revoked state_data)"

text \<open>\<open>state_data["commits_requested"] = [...]\<close>: the other fields stay as they are.\<close>

definition with_commits_requested :: "pyval \<Rightarrow> string list \<Rightarrow> pyval" where
  "with_commits_requested state_data requested =
     (case state_data of
        PDict kvs \<Rightarrow>
          PDict (AList.update ''commits_requested'' (PList (map PStr requested)) kvs)
      | v \<Rightarrow> v)"

definition lowercase_even_hex :: "string \<Rightarrow> bool" where
  "lowercase_even_hex s = (list_all (\<lambda>c. c \<in> set ''0123456789abcdef'') s \<and> even (length s))"

subsection \<open>The invariants of a channel state, in the words of the specification\<close>

text \<open>The asset is one of the names the ledger's registry reports.\<close>

definition asset_registered :: "dispatcher \<Rightarrow> pyval \<Rightarrow> bool" where
  "asset_registered dispatcher asset =
     (case get_assets dispatcher of
        Inr entries \<Rightarrow>
          (case map_raising (\<lambda>e. getitem e ''asset_name'') entries of
             Inr assets \<Rightarrow> asset \<in> set assets
           | Inl _ \<Rightarrow> False)
      | Inl _ \<Rightarrow> False)"

text \<open>
  A structurally valid deposit script, with its address \<open>deposit_address\<close> under the
  network and its spend secret hash \<open>deposit_spend_hash\<close>.
\<close>

definition deposit_valid :: "core \<Rightarrow> string \<Rightarrow> pyval \<Rightarrow> string \<Rightarrow> string \<Rightarrow> bool" where
  "deposit_valid core netcode deposit deposit_address deposit_spend_hash =
     (script_address core deposit netcode = Inr deposit_address
      \<and> get_deposit_spend_secret_hash core deposit = Inr deposit_spend_hash
      \<and> validate_deposit_script core deposit = Inr ())"

text \<open>A structurally valid commit script that carries the deposit's spend secret hash.\<close>

definition commit_valid :: "core \<Rightarrow> string \<Rightarrow> pyval \<Rightarrow> bool" where
  "commit_valid core deposit_spend_hash script =
     (validate_commit_script core script = Inr ()
      \<and> get_commit_spend_secret_hash core script = Inr deposit_spend_hash)"

text \<open>
  The commit script shares payee pubkey, payer pubkey and spend secret hash with the
  deposit script: the validator \<open>commit_script\<close> accepts the pair.
\<close>

definition commit_shares_deposit :: "core \<Rightarrow> pyval \<Rightarrow> pyval \<Rightarrow> bool" where
  "commit_shares_deposit core deposit script = (fst (commit_script core script deposit) = Inr ())"

text \<open>
  \<open>hash160(revoke_secret)\<close> and the \<open>revoke_secret_hash\<close> embedded in the entry's
  script are both defined, and are equal (\<open>revocation_matches\<close>) or differ
  (\<open>revocation_differs\<close>).
\<close>

definition revocation_matches :: "core \<Rightarrow> pyval \<Rightarrow> bool" where
  "revocation_matches core revoked =
     (case get_commit_revoke_secret_hash core (field revoked ''script'') of
        Inr revoke_hash \<Rightarrow>
          (case hash160hex core (field revoked ''revoke_secret'') of
             Inr h \<Rightarrow> revoke_hash = h
           | Inl _ \<Rightarrow> False)
      | Inl _ \<Rightarrow> False)"

definition revocation_differs :: "core \<Rightarrow> pyval \<Rightarrow> bool" where
  "revocation_differs core revoked =
     (case get_commit_revoke_secret_hash core (field revoked ''script'') of
        Inr revoke_hash \<Rightarrow>
          (case hash160hex core (field revoked ''revoke_secret'') of
             Inr h \<Rightarrow> revoke_hash \<noteq> h
           | Inl _ \<Rightarrow> False)
      | Inl _ \<Rightarrow> False)"

text \<open>
  The ledger reports \<open>rawtx\<close> as a transaction from \<open>source\<close> to \<open>destination\<close>
  whose payload is a send (message type 0) of \<open>asset\<close>.
\<close>

definition ledger_send :: "dispatcher \<Rightarrow> pyval \<Rightarrow> pyval \<Rightarrow> string \<Rightarrow> string \<Rightarrow> bool" where
  "ledger_send dispatcher rawtx asset source destination =
     (case get_tx_info dispatcher rawtx of
        Inr (s, d, b, f, Some payload) \<Rightarrow>
          payload \<noteq> [] \<and> s = source \<and> d = destination
          \<and> (case unpack dispatcher payload of
                Inr (m, u) \<Rightarrow> m = 0 \<and> getitem u ''asset'' = Inr asset
              | Inl _ \<Rightarrow> False)
      | _ \<Rightarrow> False)"

text \<open>
  An active entry whose \<open>rawtx\<close> is a ledger send of the asset from the deposit's
  address to the address of the entry's script.
\<close>

definition active_settled ::
  "core \<Rightarrow> dispatcher \<Rightarrow> string \<Rightarrow> pyval \<Rightarrow> string \<Rightarrow> pyval \<Rightarrow> bool" where
  "active_settled core dispatcher netcode asset deposit_address active =
     (case script_address core (field active ''script'') netcode of
        Inr commit_address \<Rightarrow>
          ledger_send dispatcher (field active ''rawtx'') asset deposit_address commit_address
      | Inl _ \<Rightarrow> False)"

text \<open>
  A state built from a valid deposit script, commit scripts that share the deposit's
  pubkeys and spend secret hash, revoked entries whose secret hashes to the script's
  revoke secret hash, and active entries settled on the ledger.
\<close>

definition built_consistently :: "core \<Rightarrow> dispatcher \<Rightarrow> string \<Rightarrow> pyval \<Rightarrow> bool" where
  "built_consistently core dispatcher netcode state_data =
     (conforms STATE_SCHEMA state_data
      \<and> (case script_address core (field state_data ''deposit_script'') netcode of
            Inr deposit_address \<Rightarrow>
              (case get_deposit_spend_secret_hash core (field state_data ''deposit_script'') of
                 Inr deposit_spend_hash \<Rightarrow>
                   validate_deposit_script core (field state_data ''deposit_script'') = Inr ()
                   \<and> list_all
                       (\<lambda>r. commit_shares_deposit core (field state_data ''deposit_script'')
                              (field r ''script'')
                            \<and> revocation_matches core r)
                       (commits_revoked state_data)
                   \<and> list_all
                       (\<lambda>a. commit_shares_deposit core (field state_data ''deposit_script'')
                              (field a ''script'')
                            \<and> active_settled core dispatcher netcode
                                (field state_data ''asset'') deposit_address a)
                       (commits_active state_data)
               | Inl _ \<Rightarrow> False)
          | Inl _ \<Rightarrow> False))"

subsection \<open>The checks of a channel state, step by step\<close>

text \<open>
  The checks the specification lists for a channel state, written without reference to
  the validators above. A step is the collaborator call it makes, if it makes one, and
  the error it ends with, if the invariant it stands for is violated. Steps run in order
  and stop at the first error: \<open>run_steps\<close> gives that error, or success, and the calls
  of the steps that have run.
\<close>

type_synonym step = "call option \<times> error option"

fun run_steps :: "step list \<Rightarrow> unit traced" where
  "run_steps [] = (Inr (), [])"
| "run_steps ((c, e) # steps) =
     (case e of
        Some err \<Rightarrow> (Inl err, case c of None \<Rightarrow> [] | Some x \<Rightarrow> [x])
      | None \<Rightarrow>
          (case run_steps steps of
             (r, t) \<Rightarrow> (r, (case c of None \<Rightarrow> [] | Some x \<Rightarrow> [x]) @ t)))"

text \<open>
  The error of a collaborator's answer, the value of the answer (a default when there is
  none: the step that made the call has then ended with the error), and the error of an
  invariant that does not hold.
\<close>

definition raised :: "error + 'a \<Rightarrow> error option" where
  "raised r = (case r of Inl e \<Rightarrow> Some e | Inr _ \<Rightarrow> None)"

definition returned :: "'a \<Rightarrow> error + 'a \<Rightarrow> 'a" where
  "returned otherwise r = (case r of Inl _ \<Rightarrow> otherwise | Inr x \<Rightarrow> x)"

definition require :: "bool \<Rightarrow> error \<Rightarrow> error option" where
  "require holds e = (if holds then None else Some e)"

text \<open>1. The state matches the schema. 2. The scripts of the entries form a set.\<close>

definition schema_steps :: "pyval \<Rightarrow> step list" where
  "schema_steps state_data = [(None, require (conforms STATE_SCHEMA state_data) ValidationError)]"

definition unique_steps :: "pyval \<Rightarrow> step list" where
  "unique_steps state_data =
     [(None, require (distinct (commit_scripts state_data)) (AssertionError 218))]"

text \<open>3. The asset is one of the asset names of the ledger's registry.\<close>

definition asset_steps :: "dispatcher \<Rightarrow> pyval \<Rightarrow> step list" where
  "asset_steps dispatcher state_data =
     (let asset = field state_data ''asset'';
          names = map_raising (\<lambda>e. getitem e ''asset_name'')
                    (returned [] (get_assets dispatcher))
      in [(Some Get_assets, raised (get_assets dispatcher)),
          (None, raised names),
          (None, require (asset \<in> set (returned [] names)) (AssetDoesNotExist asset))])"

text \<open>4. The deposit script has an address and a spend secret hash, and is valid.\<close>

definition deposit_steps :: "core \<Rightarrow> string \<Rightarrow> pyval \<Rightarrow> step list" where
  "deposit_steps core netcode state_data =
     (let deposit = field state_data ''deposit_script''
      in [(Some (Script_address deposit netcode), raised (script_address core deposit netcode)),
          (Some (Get_deposit_spend_secret_hash deposit),
             raised (get_deposit_spend_secret_hash core deposit)),
          (Some (Validate_deposit_script deposit),
             raised (validate_deposit_script core deposit))])"

text \<open>
  5. A revoked entry: its script is a valid commit script, the spend secret hash of the
  script is the deposit's, and the revoke secret hashes to the revoke secret hash of the
  script.
\<close>

definition revoked_steps :: "core \<Rightarrow> string \<Rightarrow> pyval \<Rightarrow> step list" where
  "revoked_steps core deposit_spend_hash revoked =
     (let script = field revoked ''script'';
          secret = field revoked ''revoke_secret''
      in [(Some (Validate_commit_script script), raised (validate_commit_script core script)),
          (Some (Get_commit_spend_secret_hash script),
             raised (get_commit_spend_secret_hash core script)),
          (None,
             require (returned [] (get_commit_spend_secret_hash core script) = deposit_spend_hash)
               (AssertionError 237)),
          (Some (Get_commit_revoke_secret_hash script),
             raised (get_commit_revoke_secret_hash core script)),
          (Some (Hash160hex secret), raised (hash160hex core secret)),
          (None,
             require (returned [] (get_commit_revoke_secret_hash core script)
                        = returned [] (hash160hex core secret))
               (AssertionError 241))])"

text \<open>
  The commit transaction of an active entry: both scripts have an address; the ledger
  knows the transaction; it has a payload; the payload decodes to a send; its source is
  the deposit's address, its destination the commit script's address, and its asset the
  asset of the state.
\<close>

definition commit_tx_steps ::
  "core \<Rightarrow> dispatcher \<Rightarrow> string \<Rightarrow> pyval \<Rightarrow> pyval \<Rightarrow> pyval \<Rightarrow> pyval \<Rightarrow> step list" where
  "commit_tx_steps core dispatcher netcode asset deposit script rawtx =
     (let commit_address = returned [] (script_address core script netcode);
          deposit_address = returned [] (script_address core deposit netcode);
          info = returned ([], [], 0, 0, None) (get_tx_info dispatcher rawtx);
          source = fst info;
          destination = fst (snd info);
          payload = (case snd (snd (snd (snd info))) of None \<Rightarrow> [] | Some p \<Rightarrow> p);
          decoded = returned (0, PNone) (unpack dispatcher payload);
          found = returned PNone (getitem (snd decoded) ''asset'')
      in [(Some (Script_address script netcode), raised (script_address core script netcode)),
          (Some (Script_address deposit netcode), raised (script_address core deposit netcode)),
          (Some (Get_tx_info rawtx), raised (get_tx_info dispatcher rawtx)),
          (None, require (payload \<noteq> []) (ValueError ''No data for given transaction!'')),
          (Some (Unpack payload), raised (unpack dispatcher payload)),
          (None, require (fst decoded = 0) (AssertionError 173)),
          (None, require (source = deposit_address) (SourceMissmatch deposit_address source)),
          (None,
             require (destination = commit_address)
               (DestinationMissmatch commit_address destination)),
          (None, raised (getitem (snd decoded) ''asset'')),
          (None, require (found = asset) (AssetMissmatch asset found))])"

text \<open>
  6. An active entry: its script is a valid commit script, the spend secret hash of the
  script is the deposit's, and its \<open>rawtx\<close> is a commit transaction of the pair.
\<close>

definition active_steps ::
  "core \<Rightarrow> dispatcher \<Rightarrow> string \<Rightarrow> pyval \<Rightarrow> pyval \<Rightarrow> string \<Rightarrow> pyval \<Rightarrow> step list" where
  "active_steps core dispatcher netcode asset deposit deposit_spend_hash active =
     (let script = field active ''script''
      in [(Some (Validate_commit_script script), raised (validate_commit_script core script)),
          (Some (Get_commit_spend_secret_hash script),
             raised (get_commit_spend_secret_hash core script)),
          (None,
             require (returned [] (get_commit_spend_secret_hash core script) = deposit_spend_hash)
               (AssertionError 251))]
         @ commit_tx_steps core dispatcher netcode asset deposit script (field active ''rawtx''))"

text \<open>The six checks in the order of the specification, the entries in the order of their lists.\<close>

definition state_steps :: "core \<Rightarrow> dispatcher \<Rightarrow> string \<Rightarrow> pyval \<Rightarrow> step list" where
  "state_steps core dispatcher netcode state_data =
     (let deposit = field state_data ''deposit_script'';
          deposit_spend_hash = returned [] (get_deposit_spend_secret_hash core deposit)
      in schema_steps state_data
         @ unique_steps state_data
         @ asset_steps dispatcher state_data
         @ deposit_steps core netcode state_data
         @ concat (map (revoked_steps core deposit_spend_hash) (commits_revoked state_data))
         @ concat (map (active_steps core dispatcher netcode (field state_data ''asset'') deposit
                          deposit_spend_hash)
                     (commits_active state_data)))"

subsection \<open>A ledger and a channel to run the validators on\<close>

text \<open>
  One deposit script \<open>d0\<close> and two commit scripts \<open>c1\<close> and \<open>c2\<close> of it, with the
  revoke secrets \<open>01\<close> and \<open>02\<close>. The ledger knows the assets BTC and XCP and four
  transactions: \<open>a1\<close> and \<open>a2\<close> send XCP from the deposit to the two commit
  addresses, \<open>a3\<close> sends it to another address, \<open>a0\<close> has no payload. Every
  transaction has a bad signature.
\<close>

definition demo_core :: core where
  "demo_core =
     \<lparr>validate_deposit_script =
        (\<lambda>v. if v = PStr ''d0'' then Inr () else Inl (CollaboratorError ''InvalidScript'')),
      validate_commit_script =
        (\<lambda>v. if v = PStr ''c1'' \<or> v = PStr ''c2'' then Inr ()
             else Inl (CollaboratorError ''InvalidScript'')),
      get_deposit_payee_pubkey = (\<lambda>v. Inr ''0b''),
      get_deposit_payer_pubkey = (\<lambda>v. Inr ''0a''),
      get_commit_payee_pubkey = (\<lambda>v. Inr ''0b''),
      get_commit_payer_pubkey = (\<lambda>v. Inr ''0a''),
      get_deposit_spend_secret_hash = (\<lambda>v. Inr ''5e''),
      get_commit_spend_secret_hash = (\<lambda>v. Inr ''5e''),
      get_commit_revoke_secret_hash =
        (\<lambda>v. if v = PStr ''c1'' then Inr ''b1'' else Inr ''b2''),
      script_address =
        (\<lambda>v n. case v of PStr s \<Rightarrow> Inr (n @ s) | _ \<Rightarrow> Inl (CollaboratorError ''TypeError'')),
      hash160hex =
        (\<lambda>v. if v = PStr ''01'' then Inr ''b1''
             else if v = PStr ''02'' then Inr ''b2'' else Inr ''00''),
      load_tx = (\<lambda>get_rawtx rawtx. Inr 1)\<rparr>"

definition demo_dispatcher :: dispatcher where
  "demo_dispatcher =
     \<lparr>get_assets =
        Inr [PDict [(''asset_name'', PStr ''BTC'')], PDict [(''asset_name'', PStr ''XCP'')]],
      get_tx_info =
        (\<lambda>v. if v = PStr ''a1'' then Inr (''Xd0'', ''Xc1'', 0, 0, Some ''00'')
             else if v = PStr ''a2'' then Inr (''Xd0'', ''Xc2'', 0, 0, Some ''00'')
             else if v = PStr ''a3'' then Inr (''Xd0'', ''Xee'', 0, 0, Some ''00'')
             else if v = PStr ''a0'' then Inr (''Xd0'', ''Xc1'', 0, 0, None)
             else Inl (CollaboratorError ''DecodeError'')),
      unpack = (\<lambda>payload. Inr (0, PDict [(''asset'', PStr ''XCP''), (''quantity'', PInt 33)])),
      getrawtransaction = (\<lambda>v. Inl (CollaboratorError ''unknown transaction''))\<rparr>"

definition channel_state ::
  "string \<Rightarrow> string \<Rightarrow> string list \<Rightarrow> (string \<times> string) list \<Rightarrow> (string \<times> string) list
     \<Rightarrow> pyval" where
  "channel_state asset deposit requested active revoked =
     PDict
       [(''asset'', PStr asset),
        (''deposit_script'', PStr deposit),
        (''commits_requested'', PList (map PStr requested)),
        (''commits_active'',
           PList (map (\<lambda>(rawtx, script). PDict [(''rawtx'', PStr rawtx), (''script'', PStr script)])
                    active)),
        (''commits_revoked'',
           PList (map (\<lambda>(script, secret).
                         PDict [(''script'', PStr script), (''revoke_secret'', PStr secret)])
                    revoked))]"

section \<open>Properties\<close>

subsection \<open>Hexadecimal strings\<close>

text \<open>A starred class followed by \<open>$\<close> matches the class, then at most one newline.\<close>

lemma re_at_class_eol:
  "re_at [StarClass cs, Eol] b s \<longleftrightarrow>
     (\<exists>t. (s = t \<or> s = t @ [CHR 0x0A]) \<and> set t \<subseteq> set cs)"
proof (induction s arbitrary: b)
  case Nil
  then show ?case by simp
next
  case (Cons c s)
  show ?case
  proof
    assume "re_at [StarClass cs, Eol] b (c # s)"
    then consider (star) "c \<in> set cs" "re_at [StarClass cs, Eol] False s"
      | (stop) "s = []" "c = CHR 0x0A"
      by auto
    then show "\<exists>t. (c # s = t \<or> c # s = t @ [CHR 0x0A]) \<and> set t \<subseteq> set cs"
    proof cases
      case star
      then obtain t where "s = t \<or> s = t @ [CHR 0x0A]" "set t \<subseteq> set cs"
        using Cons.IH by blast
      with star(1) show ?thesis
        by (intro exI [of _ "c # t"]) auto
    next
      case stop
      then show ?thesis
        by (intro exI [of _ "[]"]) simp
    qed
  next
    assume "\<exists>t. (c # s = t \<or> c # s = t @ [CHR 0x0A]) \<and> set t \<subseteq> set cs"
    then obtain t where t: "c # s = t \<or> c # s = t @ [CHR 0x0A]" "set t \<subseteq> set cs"
      by blast
    show "re_at [StarClass cs, Eol] b (c # s)"
    proof (cases t)
      case Nil
      with t show ?thesis by simp
    next
      case (Cons d u)
      with t have "c = d" "c \<in> set cs" "s = u \<or> s = u @ [CHR 0x0A]" "set u \<subseteq> set cs"
        by auto
      then have "re_at [StarClass cs, Eol] False s"
        using Cons.IH by blast
      with \<open>c \<in> set cs\<close> show ?thesis by simp
    qed
  qed
qed

text \<open>
  What \<open>re.match("^[0-9a-f]*$", s)\<close> accepts: lower-case hexadecimal digits, and at most
  one newline after them.
\<close>

lemma re_match_HEX_PATTERN:
  "re_match HEX_PATTERN s \<longleftrightarrow>
     (\<exists>t. (s = t \<or> s = t @ [CHR 0x0A]) \<and> set t \<subseteq> set ''0123456789abcdef'')"
  unfolding re_match_def HEX_PATTERN_def
  by (simp only: re_at.simps re_at_class_eol simp_thms)

text \<open>The same for \<open>re.search\<close> with the pattern of the schema.\<close>

lemma re_search_TYPE_HEX:
  "re_search TYPE_HEX_PATTERN s \<longleftrightarrow>
     (\<exists>t. (s = t \<or> s = t @ [CHR 0x0A]) \<and> set t \<subseteq> set ''0123456789abcdef'')"
proof -
  have "\<not> re_search_tail TYPE_HEX_PATTERN u" for u
    by (induction u) (simp_all add: TYPE_HEX_PATTERN_def)
  moreover have "set ''abcdef0123456789'' = set ''0123456789abcdef''"
    by auto
  ultimately show ?thesis
    unfolding re_search_def TYPE_HEX_PATTERN_def
    by (simp only: re_at.simps re_at_class_eol simp_thms)
qed

text \<open>
  \<open>is_hex\<close> on a string: the digits are lower-case hexadecimal, at most one newline
  follows them, and the length, newline included, is even. On any other value it
  raises \<open>InvalidString\<close>.
\<close>

lemma is_hex_accepts:
  "is_hex (PStr s) = Inr () \<longleftrightarrow>
     (\<exists>t. (s = t \<or> s = t @ [CHR 0x0A]) \<and> set t \<subseteq> set ''0123456789abcdef'') \<and> even (length s)"
  unfolding re_match_HEX_PATTERN [symmetric]
  by (simp add: is_hex_def is_string_def even_iff_mod_2_eq_zero)

lemma is_hex_not_string: "(\<forall>t. v \<noteq> PStr t) \<Longrightarrow> is_hex v = Inl (InvalidString v)"
  by (cases v) (simp_all add: is_hex_def is_string_def)

text \<open>
  C5. \<open>is_hex(s)\<close> is to succeed if and only if \<open>s\<close> is a string of lower-case
  hexadecimal digits of even length. The code accepts more: \<open>$\<close> lets a final newline
  through, so \<open>is_hex\<close> succeeds on the two characters \<open>a\<close> and newline, which is
  not a hexadecimal string.
\<close>

theorem is_hex_trailing_newline:
  "is_hex (PStr [CHR ''a'', CHR 0x0A]) = Inr ()
   \<and> re_match HEX_PATTERN [CHR ''a'', CHR 0x0A]
   \<and> even (length [CHR ''a'', CHR 0x0A])
   \<and> \<not> lowercase_even_hex [CHR ''a'', CHR 0x0A]"
  by (simp add: is_hex_def is_string_def re_match_def HEX_PATTERN_def lowercase_even_hex_def)

subsection \<open>Sequencing of traced results\<close>

lemma and_then_plain_Inr [simp]: "and_then (plain (Inr x)) f = f x"
  by (simp add: and_then_def plain_def split: prod.splits)

lemma and_then_plain_Inl [simp]: "and_then (plain (Inl e)) f = (Inl e, [])"
  by (simp add: and_then_def plain_def)

lemma and_then_ok [simp]: "and_then (ok x) f = f x"
  by (simp add: and_then_def ok_def split: prod.splits)

lemma and_then_raise [simp]: "and_then (raise e) f = (Inl e, [])"
  by (simp add: and_then_def raise_def)

lemma and_then_call_Inr [simp]: "and_then (call c (Inr x)) f = (fst (f x), c # snd (f x))"
  by (simp add: and_then_def call_def split: prod.splits)

lemma and_then_call_Inl [simp]: "and_then (call c (Inl e)) f = (Inl e, [c])"
  by (simp add: and_then_def call_def)

lemma fst_and_then:
  "fst (and_then m f) = (case fst m of Inl e \<Rightarrow> Inl e | Inr x \<Rightarrow> fst (f x))"
  by (simp add: and_then_def split: prod.splits sum.splits)

subsection \<open>States that conform to the schema\<close>

text \<open>
  A required property of an object that conforms is present and conforms to its own
  schema; hence the subscripts of \<open>is_state\<close> on a conforming state cannot fail.
\<close>

lemma conforms_required:
  assumes "conforms (SObject props req addl) v" "k \<in> set req" "map_of props k = Some s"
  shows "\<exists>x. getitem v k = Inr x \<and> conforms s x"
proof -
  from assms(1) obtain kvs where v: "v = PDict kvs"
    by (cases v) simp_all
  with assms(1) have props: "list_all (\<lambda>(k, s). case map_of kvs k of None \<Rightarrow> True | Some x \<Rightarrow> conforms s x) props"
    and req: "list_all (\<lambda>k. k \<in> fst ` set kvs) req"
    by simp_all
  from req assms(2) have "k \<in> fst ` set kvs"
    by (simp add: list_all_iff)
  then obtain x where x: "map_of kvs k = Some x"
    by (metis domD dom_map_of_conv_image_fst)
  from assms(3) have "(k, s) \<in> set props"
    by (rule map_of_SomeD)
  with props x have "conforms s x"
    by (auto simp: list_all_iff)
  with x v show ?thesis
    by (simp add: getitem_def)
qed

lemma conforms_SStringD: "conforms (SString p) x \<Longrightarrow> \<exists>s. x = PStr s"
  by (cases x) simp_all

lemma conforms_SArrayD:
  "conforms (SArray items) x \<Longrightarrow> \<exists>xs. x = PList xs \<and> list_all (conforms items) xs"
  by (cases x) simp_all

lemma conforms_state_fields:
  assumes "conforms STATE_SCHEMA sd"
  shows "\<exists>a. getitem sd ''asset'' = Inr (PStr a)"
    and "\<exists>d. getitem sd ''deposit_script'' = Inr (PStr d)"
    and "\<exists>xs. getitem sd ''commits_active'' = Inr (PList xs) \<and> list_all (conforms ACTIVE_SCHEMA) xs"
    and "\<exists>xs. getitem sd ''commits_revoked'' = Inr (PList xs) \<and> list_all (conforms REVOKED_SCHEMA) xs"
proof -
  note c = conforms_required [OF assms [unfolded STATE_SCHEMA_def]]
  have "\<exists>x. getitem sd ''asset'' = Inr x \<and> conforms (SString None) x"
    by (rule c) simp_all
  then show "\<exists>a. getitem sd ''asset'' = Inr (PStr a)"
    by (blast dest: conforms_SStringD)
  have "\<exists>x. getitem sd ''deposit_script'' = Inr x \<and> conforms TYPE_HEX x"
    by (rule c) simp_all
  then show "\<exists>d. getitem sd ''deposit_script'' = Inr (PStr d)"
    unfolding TYPE_HEX_def by (blast dest: conforms_SStringD)
  have "\<exists>x. getitem sd ''commits_active'' = Inr x \<and> conforms (SArray ACTIVE_SCHEMA) x"
    by (rule c) simp_all
  then show "\<exists>xs. getitem sd ''commits_active'' = Inr (PList xs) \<and> list_all (conforms ACTIVE_SCHEMA) xs"
    by (blast dest: conforms_SArrayD)
  have "\<exists>x. getitem sd ''commits_revoked'' = Inr x \<and> conforms (SArray REVOKED_SCHEMA) x"
    by (rule c) simp_all
  then show "\<exists>xs. getitem sd ''commits_revoked'' = Inr (PList xs) \<and> list_all (conforms REVOKED_SCHEMA) xs"
    by (blast dest: conforms_SArrayD)
qed

lemma conforms_active_fields:
  assumes "conforms ACTIVE_SCHEMA a"
  shows "\<exists>r. getitem a ''rawtx'' = Inr (PStr r)" and "\<exists>s. getitem a ''script'' = Inr (PStr s)"
proof -
  note c = conforms_required [OF assms [unfolded ACTIVE_SCHEMA_def]]
  have "\<exists>x. getitem a ''rawtx'' = Inr x \<and> conforms TYPE_HEX x"
    by (rule c) simp_all
  then show "\<exists>r. getitem a ''rawtx'' = Inr (PStr r)"
    unfolding TYPE_HEX_def by (blast dest: conforms_SStringD)
  have "\<exists>x. getitem a ''script'' = Inr x \<and> conforms TYPE_HEX x"
    by (rule c) simp_all
  then show "\<exists>s. getitem a ''script'' = Inr (PStr s)"
    unfolding TYPE_HEX_def by (blast dest: conforms_SStringD)
qed

lemma conforms_revoked_fields:
  assumes "conforms REVOKED_SCHEMA r"
  shows "\<exists>s. getitem r ''script'' = Inr (PStr s)"
    and "\<exists>s. getitem r ''revoke_secret'' = Inr (PStr s)"
proof -
  note c = conforms_required [OF assms [unfolded REVOKED_SCHEMA_def]]
  have "\<exists>x. getitem r ''script'' = Inr x \<and> conforms TYPE_HEX x"
    by (rule c) simp_all
  then show "\<exists>s. getitem r ''script'' = Inr (PStr s)"
    unfolding TYPE_HEX_def by (blast dest: conforms_SStringD)
  have "\<exists>x. getitem r ''revoke_secret'' = Inr x \<and> conforms TYPE_HEX x"
    by (rule c) simp_all
  then show "\<exists>s. getitem r ''revoke_secret'' = Inr (PStr s)"
    unfolding TYPE_HEX_def by (blast dest: conforms_SStringD)
qed

lemma getitem_field: "getitem v k = Inr x \<Longrightarrow> field v k = x"
  by (simp add: field_def)

lemma getitem_script_field:
  "list_all (\<lambda>c. \<exists>s. getitem c ''script'' = Inr (PStr s)) cs \<Longrightarrow>
     map_raising (\<lambda>c. getitem c ''script'') cs = Inr (map (\<lambda>c. field c ''script'') cs)
     \<and> list_all hashable (map (\<lambda>c. field c ''script'') cs)"
  by (induction cs) (auto simp: field_def hashable_def)

lemma len_set_distinct:
  "list_all hashable xs \<Longrightarrow> len_set xs = Inr n \<Longrightarrow> (length xs = n) = distinct xs"
  by (auto simp: len_set_def) (metis length_remdups_eq remdups_id_iff_distinct)+

text \<open>
  \<open>is_state\<close> after the schema check: the uniqueness assertion, then the asset, the
  deposit script and the two loops, on the fields of the state.
\<close>

lemma is_state_not_conforms:
  "\<not> conforms STATE_SCHEMA sd \<Longrightarrow> is_state core disp sd nc = (Inl ValidationError, [])"
  by (simp add: is_state_def jsonschema_validate_def)

lemma is_state_conforms:
  assumes "conforms STATE_SCHEMA sd"
  shows "is_state core disp sd nc =
     (if \<not> distinct (commit_scripts sd) then (Inl (AssertionError 218), [])
      else
        and_then (is_asset disp (field sd ''asset'')) (\<lambda>_.
        and_then
          (call (Script_address (field sd ''deposit_script'') nc)
             (script_address core (field sd ''deposit_script'') nc)) (\<lambda>deposit_address.
        and_then
          (call (Get_deposit_spend_secret_hash (field sd ''deposit_script''))
             (get_deposit_spend_secret_hash core (field sd ''deposit_script'')))
          (\<lambda>deposit_spend_hash.
        and_then
          (call (Validate_deposit_script (field sd ''deposit_script''))
             (validate_deposit_script core (field sd ''deposit_script''))) (\<lambda>_.
        and_then (for_revoked core deposit_spend_hash (commits_revoked sd)) (\<lambda>_.
        for_active core disp sd (field sd ''deposit_script'') deposit_spend_hash nc
          (commits_active sd)))))))"
proof -
  from conforms_state_fields [OF assms] obtain a d act rev where
    a: "getitem sd ''asset'' = Inr (PStr a)" and
    d: "getitem sd ''deposit_script'' = Inr (PStr d)" and
    act: "getitem sd ''commits_active'' = Inr (PList act)" "list_all (conforms ACTIVE_SCHEMA) act" and
    rev: "getitem sd ''commits_revoked'' = Inr (PList rev)" "list_all (conforms REVOKED_SCHEMA) rev"
    by blast
  have fa: "field sd ''asset'' = PStr a" and fd: "field sd ''deposit_script'' = PStr d"
    and ca: "commits_active sd = act" and cr: "commits_revoked sd = rev"
    using a d act(1) rev(1)
    by (simp_all add: field_def commits_active_def commits_revoked_def elements_def iterate_def)
  have "list_all (\<lambda>c. \<exists>s. getitem c ''script'' = Inr (PStr s)) act"
    using act(2) by (auto simp: list_all_iff dest: conforms_active_fields(2))
  note sa = getitem_script_field [OF this]
  have "list_all (\<lambda>c. \<exists>s. getitem c ''script'' = Inr (PStr s)) rev"
    using rev(2) by (auto simp: list_all_iff dest: conforms_revoked_fields(1))
  note sr = getitem_script_field [OF this]
  have h: "list_all hashable (commit_scripts sd)"
    using sa sr by (simp add: commit_scripts_def ca cr)
  have ls: "len_set (commit_scripts sd) = Inr (length (remdups (commit_scripts sd)))"
    using h by (simp add: len_set_def)
  have eq: "(length act + length rev = length (remdups (commit_scripts sd)))
      = distinct (commit_scripts sd)"
    using len_set_distinct [OF h ls] by (simp add: commit_scripts_def ca cr)
  have cs: "map (\<lambda>c. field c ''script'') act @ map (\<lambda>c. field c ''script'') rev
      = commit_scripts sd"
    by (simp add: commit_scripts_def ca cr)
  show ?thesis
    unfolding is_state_def
    using assms sa sr
    by (simp add: jsonschema_validate_def scripts_of_def act(1) rev(1) iterate_def a d fa fd
        ca cr cs ls eq raise_def)
qed

subsection \<open>The transaction and asset validators\<close>

text \<open>Exactly when \<open>is_send_tx\<close> returns, and what.\<close>

lemma is_send_tx_success_iff:
  "fst (is_send_tx core disp rawtx expected_asset expected_src expected_dest validate_signature)
     = Inr r \<longleftrightarrow>
   (\<exists>s d b f payload u.
      get_tx_info disp rawtx = Inr (s, d, b, f, Some payload) \<and> payload \<noteq> []
      \<and> unpack disp payload = Inr (0, u)
      \<and> (expected_src = None \<or> expected_src = Some s)
      \<and> (expected_dest = None \<or> expected_dest = Some d)
      \<and> (expected_asset = PNone \<or> getitem u ''asset'' = Inr expected_asset)
      \<and> (validate_signature \<longrightarrow> load_tx core (getrawtransaction disp) rawtx = Inr 0)
      \<and> r = \<lparr>src = s, dest = d, btc = b, fee = f, data = payload, message_type_id = 0,
             unpacked = u\<rparr>)"
  unfolding is_send_tx_def
  apply (cases "get_tx_info disp rawtx")
   apply simp
  subgoal for x
    apply (cases x)
    subgoal for s d b f payload
      apply (cases payload)
       apply (simp add: raise_def)
      subgoal for p
        apply (cases "p = []")
         apply (simp add: raise_def)
        apply (cases "unpack disp p")
         apply simp
        subgoal for y
          apply (cases y)
          subgoal for m u
            apply (cases "expected_asset = PNone"; cases "getitem u ''asset''";
                cases "load_tx core (getrawtransaction disp) rawtx")
            apply (auto simp: raise_def ok_def fst_and_then)
            done
          done
        done
      done
    done
  done

lemma is_commit_rawtx_send:
  assumes "script_address core c nc = Inr ca" and "script_address core d nc = Inr da"
  shows "is_commit_rawtx core disp rawtx asset d c nc vs =
     (case is_send_tx core disp rawtx asset (Some da) (Some ca) vs of
        (r, t) \<Rightarrow> (map_sum id (\<lambda>_. ()) r, Script_address c nc # Script_address d nc # t))"
  using assms
  by (auto simp: is_commit_rawtx_def and_then_def ok_def call_def split: prod.splits sum.splits)

lemma fst_is_asset:
  "fst (is_asset disp asset) = Inr () \<longleftrightarrow> (\<exists>s. asset = PStr s) \<and> asset_registered disp asset"
  by (cases asset; cases "get_assets disp")
    (auto simp: is_asset_def is_string_def asset_registered_def raise_def ok_def
      split: sum.splits)

subsection \<open>One iteration of each loop\<close>

declare for_revoked.simps(2) [simp del] for_active.simps(2) [simp del]

lemma for_revoked_step:
  assumes "conforms REVOKED_SCHEMA r"
  shows "for_revoked core h (r # rest) =
     and_then
       (call (Validate_commit_script (field r ''script''))
          (validate_commit_script core (field r ''script''))) (\<lambda>_.
     and_then
       (call (Get_commit_spend_secret_hash (field r ''script''))
          (get_commit_spend_secret_hash core (field r ''script''))) (\<lambda>r_spend_hash.
     if r_spend_hash \<noteq> h then raise (AssertionError 237) else
     and_then
       (call (Get_commit_revoke_secret_hash (field r ''script''))
          (get_commit_revoke_secret_hash core (field r ''script''))) (\<lambda>revoke_hash.
     and_then
       (call (Hash160hex (field r ''revoke_secret''))
          (hash160hex core (field r ''revoke_secret''))) (\<lambda>x.
     if revoke_hash \<noteq> x then raise (AssertionError 241) else
     for_revoked core h rest))))"
proof -
  from conforms_revoked_fields [OF assms] obtain s x where
    "getitem r ''script'' = Inr (PStr s)" "getitem r ''revoke_secret'' = Inr (PStr x)"
    by blast
  then show ?thesis
    by (simp add: for_revoked.simps(2) field_def cong: if_cong)
qed

lemma for_active_step:
  assumes "conforms ACTIVE_SCHEMA a" and "getitem sd ''asset'' = Inr asset"
  shows "for_active core disp sd d h nc (a # rest) =
     and_then
       (call (Validate_commit_script (field a ''script''))
          (validate_commit_script core (field a ''script''))) (\<lambda>_.
     and_then
       (call (Get_commit_spend_secret_hash (field a ''script''))
          (get_commit_spend_secret_hash core (field a ''script''))) (\<lambda>a_spend_hash.
     if a_spend_hash \<noteq> h then raise (AssertionError 251) else
     and_then
       (is_commit_rawtx core disp (field a ''rawtx'') asset d (field a ''script'') nc False)
       (\<lambda>_.
     for_active core disp sd d h nc rest)))"
proof -
  from conforms_active_fields [OF assms(1)] obtain s x where
    "getitem a ''script'' = Inr (PStr s)" "getitem a ''rawtx'' = Inr (PStr x)"
    by blast
  with assms(2) show ?thesis
    by (simp add: for_active.simps(2) field_def cong: if_cong)
qed

lemma for_revoked_valid_step:
  assumes "conforms REVOKED_SCHEMA r" and "commit_valid core h (field r ''script'')"
    and "revocation_matches core r"
  shows "fst (for_revoked core h (r # rest)) = fst (for_revoked core h rest)"
  using assms(2,3)
  by (simp add: for_revoked_step [OF assms(1)] commit_valid_def revocation_matches_def
      split: sum.splits)

lemma for_revoked_valid_prefix:
  assumes "list_all (conforms REVOKED_SCHEMA) pre"
    and "list_all (\<lambda>r. commit_valid core h (field r ''script'') \<and> revocation_matches core r) pre"
  shows "fst (for_revoked core h (pre @ rest)) = fst (for_revoked core h rest)"
  using assms by (induction pre) (simp_all add: for_revoked_valid_step)

lemma for_revoked_differs_step:
  assumes "conforms REVOKED_SCHEMA r" and "commit_valid core h (field r ''script'')"
    and "revocation_differs core r"
  shows "fst (for_revoked core h (r # rest)) = Inl (AssertionError 241)"
  using assms(2,3)
  by (simp add: for_revoked_step [OF assms(1)] commit_valid_def revocation_differs_def raise_def
      split: sum.splits)

lemma ledger_send_iff:
  "ledger_send disp rawtx asset source destination \<longleftrightarrow>
     (\<exists>b f payload u.
        get_tx_info disp rawtx = Inr (source, destination, b, f, Some payload) \<and> payload \<noteq> []
        \<and> unpack disp payload = Inr (0, u) \<and> getitem u ''asset'' = Inr asset)"
proof (cases "get_tx_info disp rawtx")
  case (Inl e)
  then show ?thesis by (simp add: ledger_send_def)
next
  case (Inr x)
  obtain s d b f p where x: "x = (s, d, b, f, p)"
    by (cases x)
  show ?thesis
  proof (cases p)
    case None
    with Inr x show ?thesis by (simp add: ledger_send_def)
  next
    case (Some payload)
    show ?thesis
    proof (cases "unpack disp payload")
      case (Inl e)
      with Inr x Some show ?thesis by (simp add: ledger_send_def)
    next
      case r: (Inr y)
      obtain m u where "y = (m, u)"
        by (cases y)
      with Inr x Some r show ?thesis
        by (auto simp: ledger_send_def)
    qed
  qed
qed

lemma for_active_valid_step:
  assumes "conforms ACTIVE_SCHEMA a" and "getitem sd ''asset'' = Inr asset"
    and "commit_valid core h (field a ''script'')"
    and "script_address core d nc = Inr da"
    and "active_settled core disp nc asset da a"
  shows "fst (for_active core disp sd d h nc (a # rest)) = fst (for_active core disp sd d h nc rest)"
proof -
  from assms(5) obtain ca where ca: "script_address core (field a ''script'') nc = Inr ca"
    and send: "ledger_send disp (field a ''rawtx'') asset da ca"
    by (auto simp: active_settled_def split: sum.splits)
  from send have "\<exists>r. fst (is_send_tx core disp (field a ''rawtx'') asset (Some da) (Some ca)
      False) = Inr r"
    unfolding is_send_tx_success_iff ledger_send_iff
    by auto
  then have "fst (is_commit_rawtx core disp (field a ''rawtx'') asset d (field a ''script'') nc
      False) = Inr ()"
    by (auto simp: is_commit_rawtx_send [OF ca assms(4)] split: prod.splits)
  with assms(3) show ?thesis
    by (simp add: for_active_step [OF assms(1,2)] commit_valid_def fst_and_then)
qed

lemma for_active_valid_prefix:
  assumes "list_all (conforms ACTIVE_SCHEMA) pre" and "getitem sd ''asset'' = Inr asset"
    and "script_address core d nc = Inr da"
    and "list_all (\<lambda>a. commit_valid core h (field a ''script'')
            \<and> active_settled core disp nc asset da a) pre"
  shows "fst (for_active core disp sd d h nc (pre @ rest)) = fst (for_active core disp sd d h nc rest)"
  using assms(1,4)
  by (induction pre) (simp_all add: for_active_valid_step [OF _ assms(2) _ assms(3)])

subsection \<open>Running the validators on the example ledger\<close>

lemmas demo_defs =
  channel_state_def demo_core_def demo_dispatcher_def STATE_SCHEMA_def ACTIVE_SCHEMA_def
  REVOKED_SCHEMA_def TYPE_HEX_def TYPE_HEX_PATTERN_def HEX_PATTERN_def re_search_def re_match_def
  commit_scripts_def commits_active_def commits_revoked_def field_def elements_def getitem_def
  iterate_def

lemmas eval_defs =
  demo_defs jsonschema_validate_def is_asset_def is_string_def
  plain_def ok_def raise_def call_def and_then_def built_consistently_def
  commit_shares_deposit_def commit_script_def is_hex_def revocation_matches_def
  revocation_differs_def active_settled_def ledger_send_def asset_registered_def
  deposit_valid_def commit_valid_def for_revoked.simps(2) for_active.simps(2)
  is_commit_rawtx_def is_send_tx_def

subsection \<open>The transaction validator: missing payload, returned record\<close>

text \<open>
  C7. When the ledger reports no payload for the transaction (\<open>None\<close> or the empty
  string), \<open>is_send_tx\<close> raises \<open>ValueError("No data for given transaction!")\<close>
  whatever the expected asset, source and destination and the signature flag are, and
  the one call it has made is \<open>get_tx_info\<close>: the payload is not unpacked, nothing is
  compared and no transaction is loaded for a signature check.
\<close>

theorem is_send_tx_no_data:
  assumes "get_tx_info disp rawtx = Inr (s, d, b, f, payload)"
    and "payload = None \<or> payload = Some []"
  shows "is_send_tx core disp rawtx expected_asset expected_src expected_dest validate_signature
    = (Inl (ValueError ''No data for given transaction!''), [Get_tx_info rawtx])"
  using assms by (auto simp: is_send_tx_def raise_def)

theorem is_send_tx_no_data_witness:
  "get_tx_info demo_dispatcher (PStr ''a0'') = Inr (''Xd0'', ''Xc1'', 0, 0, None)
   \<and> is_send_tx demo_core demo_dispatcher (PStr ''a0'') (PStr ''XCP'') (Some ''Xd0'')
        (Some ''Xc1'') True
      = (Inl (ValueError ''No data for given transaction!''), [Get_tx_info (PStr ''a0'')])"
proof -
  have h: "get_tx_info demo_dispatcher (PStr ''a0'') = Inr (''Xd0'', ''Xc1'', 0, 0, None)"
    by (simp add: demo_dispatcher_def)
  show ?thesis
    using h is_send_tx_no_data [OF h, of demo_core "PStr ''XCP''" "Some ''Xd0''"
        "Some ''Xc1''" True]
    by simp
qed

text \<open>
  C8. When \<open>is_send_tx\<close> raises nothing it returns a record whose \<open>src\<close>, \<open>dest\<close>,
  \<open>btc\<close> (the amount) and \<open>fee\<close> are those the ledger reports for the transaction,
  whose \<open>data\<close> is the raw payload, and whose \<open>unpacked\<close> holds the fields decoded
  from the payload, among them the asset: it is the expected asset when one is given.
\<close>

theorem is_send_tx_returns_record:
  assumes "fst (is_send_tx core disp rawtx expected_asset expected_src expected_dest
      validate_signature) = Inr r"
  shows "\<exists>s d b f payload u.
      get_tx_info disp rawtx = Inr (s, d, b, f, Some payload)
      \<and> unpack disp payload = Inr (0, u)
      \<and> r = \<lparr>src = s, dest = d, btc = b, fee = f, data = payload, message_type_id = 0,
             unpacked = u\<rparr>
      \<and> (expected_asset \<noteq> PNone \<longrightarrow> getitem (unpacked r) ''asset'' = Inr expected_asset)"
  using assms unfolding is_send_tx_success_iff by auto

theorem is_send_tx_returns_record_witness:
  "fst (is_send_tx demo_core demo_dispatcher (PStr ''a1'') (PStr ''XCP'') (Some ''Xd0'')
     (Some ''Xc1'') False)
     = Inr \<lparr>src = ''Xd0'', dest = ''Xc1'', btc = 0, fee = 0, data = ''00'', message_type_id = 0,
            unpacked = PDict [(''asset'', PStr ''XCP''), (''quantity'', PInt 33)]\<rparr>
   \<and> get_tx_info demo_dispatcher (PStr ''a1'') = Inr (''Xd0'', ''Xc1'', 0, 0, Some ''00'')
   \<and> getitem (PDict [(''asset'', PStr ''XCP''), (''quantity'', PInt 33)]) ''asset''
       = Inr (PStr ''XCP'')"
proof -
  have h: "fst (is_send_tx demo_core demo_dispatcher (PStr ''a1'') (PStr ''XCP'')
      (Some ''Xd0'') (Some ''Xc1'') False)
     = Inr \<lparr>src = ''Xd0'', dest = ''Xc1'', btc = 0, fee = 0, data = ''00'', message_type_id = 0,
            unpacked = PDict [(''asset'', PStr ''XCP''), (''quantity'', PInt 33)]\<rparr>"
    by (simp add: eval_defs)
  from is_send_tx_returns_record [OF h] obtain s d b f payload u where
    g: "get_tx_info demo_dispatcher (PStr ''a1'') = Inr (s, d, b, f, Some payload)" and
    r: "\<lparr>src = ''Xd0'', dest = ''Xc1'', btc = 0, fee = 0, data = ''00'', message_type_id = 0,
        unpacked = PDict [(''asset'', PStr ''XCP''), (''quantity'', PInt 33)]\<rparr>
      = \<lparr>src = s, dest = d, btc = b, fee = f, data = payload, message_type_id = 0,
         unpacked = u\<rparr>" and
    a: "PStr ''XCP'' \<noteq> PNone \<longrightarrow>
      getitem (unpacked \<lparr>src = ''Xd0'', dest = ''Xc1'', btc = 0, fee = 0, data = ''00'',
        message_type_id = 0,
        unpacked = PDict [(''asset'', PStr ''XCP''), (''quantity'', PInt 33)]\<rparr>) ''asset''
      = Inr (PStr ''XCP'')"
    by blast
  from r have "s = ''Xd0''" "d = ''Xc1''" "b = 0" "f = 0" "payload = ''00''"
    by simp_all
  with g have "get_tx_info demo_dispatcher (PStr ''a1'') = Inr (''Xd0'', ''Xc1'', 0, 0, Some ''00'')"
    by simp
  moreover from a have "getitem (PDict [(''asset'', PStr ''XCP''), (''quantity'', PInt 33)])
      ''asset'' = Inr (PStr ''XCP'')"
    by simp
  ultimately show ?thesis
    using h by simp
qed

subsection \<open>The channel state validator: uniqueness and the order of the checks\<close>

text \<open>
  C2. In a channel state (an object that conforms to the schema) where a script occurs
  in more than one entry of \<open>commits_active\<close> and \<open>commits_revoked\<close> together,
  \<open>is_state\<close> fails at the assertion of line 218, the check that the scripts form a
  set, before any collaborator is called, whatever the entries are otherwise.
\<close>

theorem is_state_duplicate_script:
  assumes "conforms STATE_SCHEMA sd" and "\<not> distinct (commit_scripts sd)"
  shows "is_state core disp sd nc = (Inl (AssertionError 218), [])"
  using assms by (simp add: is_state_conforms)

theorem is_state_duplicate_script_witness:
  "conforms STATE_SCHEMA (channel_state ''XCP'' ''d0'' [] [(''a1'', ''c1'')] [(''c1'', ''01'')])
   \<and> \<not> distinct
        (commit_scripts (channel_state ''XCP'' ''d0'' [] [(''a1'', ''c1'')] [(''c1'', ''01'')]))
   \<and> built_consistently demo_core demo_dispatcher ''X''
        (channel_state ''XCP'' ''d0'' [] [(''a1'', ''c1'')] [(''c1'', ''01'')])
   \<and> is_state demo_core demo_dispatcher
        (channel_state ''XCP'' ''d0'' [] [(''a1'', ''c1'')] [(''c1'', ''01'')]) ''X''
      = (Inl (AssertionError 218), [])"
proof -
  have h1: "conforms STATE_SCHEMA
      (channel_state ''XCP'' ''d0'' [] [(''a1'', ''c1'')] [(''c1'', ''01'')])"
    by (simp add: demo_defs)
  have h2: "\<not> distinct
      (commit_scripts (channel_state ''XCP'' ''d0'' [] [(''a1'', ''c1'')] [(''c1'', ''01'')]))"
    by (simp add: demo_defs)
  have h3: "built_consistently demo_core demo_dispatcher ''X''
      (channel_state ''XCP'' ''d0'' [] [(''a1'', ''c1'')] [(''c1'', ''01'')])"
    by (simp add: eval_defs)
  show ?thesis
    using h1 h2 h3 is_state_duplicate_script [OF h1 h2, of demo_core demo_dispatcher "''X''"]
    by simp
qed

subsection \<open>Valid and invalid entries in the loops of \<open>is_state\<close>\<close>

lemma commit_shares_deposit_valid:
  assumes "commit_shares_deposit core d c" and "get_deposit_spend_secret_hash core d = Inr h"
  shows "commit_valid core h c"
proof -
  from assms(1) have ok: "fst (commit_script core c d) = Inr ()"
    by (simp add: commit_shares_deposit_def)
  have v: "validate_commit_script core c = Inr ()"
  proof (cases "validate_commit_script core c")
    case (Inl e)
    with ok show ?thesis
      by (auto simp: commit_script_def fst_and_then call_def plain_def split: sum.splits)
  next
    case (Inr u)
    then show ?thesis by simp
  qed
  have "get_commit_spend_secret_hash core c = Inr h"
  proof (cases "get_commit_spend_secret_hash core c")
    case (Inl e)
    with ok show ?thesis
      by (auto simp: commit_script_def fst_and_then call_def plain_def raise_def
          split: sum.splits if_splits)
  next
    case (Inr h')
    with ok assms(2) show ?thesis
      by (auto simp: commit_script_def fst_and_then call_def plain_def raise_def ok_def
          split: sum.splits if_splits)
  qed
  with v show ?thesis
    by (simp add: commit_valid_def)
qed

lemma conforms_commits:
  assumes "conforms STATE_SCHEMA sd"
  shows "list_all (conforms ACTIVE_SCHEMA) (commits_active sd)"
    and "list_all (conforms REVOKED_SCHEMA) (commits_revoked sd)"
    and "getitem sd ''asset'' = Inr (field sd ''asset'')"
    and "\<exists>a. field sd ''asset'' = PStr a"
  using conforms_state_fields [OF assms]
  by (auto simp: commits_active_def commits_revoked_def field_def elements_def iterate_def)

lemma for_revoked_Nil: "for_revoked core h [] = (Inr (), [])"
  by (simp add: ok_def)

lemma for_active_Nil: "for_active core disp sd d h nc [] = (Inr (), [])"
  by (simp add: ok_def)

text \<open>The result of \<open>is_state\<close> once schema, uniqueness, asset and deposit checks pass.\<close>

lemma fst_is_state_loops:
  assumes "conforms STATE_SCHEMA sd" and "distinct (commit_scripts sd)"
    and "asset_registered disp (field sd ''asset'')"
    and "deposit_valid core nc (field sd ''deposit_script'') da h"
  shows "fst (is_state core disp sd nc) =
     (case fst (for_revoked core h (commits_revoked sd)) of
        Inl e \<Rightarrow> Inl e
      | Inr _ \<Rightarrow>
          fst (for_active core disp sd (field sd ''deposit_script'') h nc (commits_active sd)))"
proof -
  from conforms_commits(4) [OF assms(1)] assms(3)
  have "fst (is_asset disp (field sd ''asset'')) = Inr ()"
    by (simp add: fst_is_asset)
  with assms(2,4) show ?thesis
    by (simp add: is_state_conforms [OF assms(1)] deposit_valid_def fst_and_then)
qed

lemma for_revoked_differs_fails:
  assumes "list_all (conforms REVOKED_SCHEMA) rs" and "list_ex (revocation_differs core) rs"
  shows "fst (for_revoked core h rs) \<noteq> Inr ()"
  using assms
proof (induction rs)
  case Nil
  then show ?case by simp
next
  case (Cons r rs)
  then have c: "conforms REVOKED_SCHEMA r"
    by simp
  show ?case
  proof (cases "revocation_differs core r")
    case True
    then show ?thesis
      by (cases "validate_commit_script core (field r ''script'')";
          cases "get_commit_spend_secret_hash core (field r ''script'')")
        (auto simp: for_revoked_step [OF c] revocation_differs_def raise_def split: sum.splits)
  next
    case False
    with Cons have "fst (for_revoked core h rs) \<noteq> Inr ()"
      by simp
    then show ?thesis
      by (cases "validate_commit_script core (field r ''script'')";
          cases "get_commit_spend_secret_hash core (field r ''script'')";
          cases "get_commit_revoke_secret_hash core (field r ''script'')";
          cases "hash160hex core (field r ''revoke_secret'')")
        (auto simp: for_revoked_step [OF c] raise_def)
  qed
qed

lemma is_state_differs_fails:
  assumes "list_ex (revocation_differs core) (commits_revoked sd)"
  shows "fst (is_state core disp sd nc) \<noteq> Inr ()"
proof (cases "conforms STATE_SCHEMA sd")
  case False
  then show ?thesis by (simp add: is_state_not_conforms)
next
  case True
  have "fst (for_revoked core h (commits_revoked sd)) \<noteq> Inr ()" for h
    by (rule for_revoked_differs_fails [OF conforms_commits(2) [OF True] assms])
  then show ?thesis
    by (auto simp: is_state_conforms [OF True] fst_and_then call_def split: sum.splits)
qed

lemma for_active_destination_step:
  assumes "conforms ACTIVE_SCHEMA a" and "getitem sd ''asset'' = Inr asset"
    and "commit_valid core h (field a ''script'')"
    and "script_address core d nc = Inr da"
    and "script_address core (field a ''script'') nc = Inr ca"
    and "ledger_send disp (field a ''rawtx'') asset da paid_to" and "paid_to \<noteq> ca"
  shows "fst (for_active core disp sd d h nc (a # rest)) = Inl (DestinationMissmatch ca paid_to)"
proof -
  from assms(6) obtain b f payload u where
    "get_tx_info disp (field a ''rawtx'') = Inr (da, paid_to, b, f, Some payload)" "payload \<noteq> []"
    "unpack disp payload = Inr (0, u)"
    unfolding ledger_send_iff by blast
  with assms(7) have "fst (is_send_tx core disp (field a ''rawtx'') asset (Some da) (Some ca)
      False) = Inl (DestinationMissmatch ca paid_to)"
    by (auto simp: is_send_tx_def raise_def)
  then have "fst (is_commit_rawtx core disp (field a ''rawtx'') asset d (field a ''script'') nc
      False) = Inl (DestinationMissmatch ca paid_to)"
    by (auto simp: is_commit_rawtx_send [OF assms(5,4)] split: prod.splits)
  with assms(3) show ?thesis
    by (simp add: for_active_step [OF assms(1,2)] commit_valid_def fst_and_then)
qed

subsection \<open>Accepted states, revocation mismatch, destination mismatch\<close>

text \<open>
  C1, as amended. A state that conforms to the schema and is built from a valid deposit
  script, commit scripts that share the deposit's pubkeys and spend secret hash, revoked
  entries whose secret hashes to the script's revoke secret hash and active entries
  settled on the ledger passes \<open>is_state\<close>, provided that its scripts are pairwise
  distinct across \<open>commits_active\<close> and \<open>commits_revoked\<close> and that its asset is in
  the ledger's registry. Without the two provisos it need not: the first state below
  has the same consistent script in an active and in a revoked entry, the second names
  an asset the ledger does not know.
\<close>

theorem is_state_accepts_consistent:
  assumes "built_consistently core disp nc sd"
    and "distinct (commit_scripts sd)"
    and "asset_registered disp (field sd ''asset'')"
  shows "fst (is_state core disp sd nc) = Inr ()"
proof -
  from assms(1) have c: "conforms STATE_SCHEMA sd"
    by (simp add: built_consistently_def)
  from assms(1) obtain da h where
    da: "script_address core (field sd ''deposit_script'') nc = Inr da" and
    h: "get_deposit_spend_secret_hash core (field sd ''deposit_script'') = Inr h" and
    v: "validate_deposit_script core (field sd ''deposit_script'') = Inr ()" and
    rev: "list_all (\<lambda>r. commit_shares_deposit core (field sd ''deposit_script'') (field r ''script'')
            \<and> revocation_matches core r) (commits_revoked sd)" and
    act: "list_all (\<lambda>a. commit_shares_deposit core (field sd ''deposit_script'') (field a ''script'')
            \<and> active_settled core disp nc (field sd ''asset'') da a) (commits_active sd)"
    by (auto simp: built_consistently_def split: sum.splits)
  have dv: "deposit_valid core nc (field sd ''deposit_script'') da h"
    using da h v by (simp add: deposit_valid_def)
  have rev': "list_all (\<lambda>r. commit_valid core h (field r ''script'') \<and> revocation_matches core r)
      (commits_revoked sd)"
    using rev by (auto simp: list_all_iff intro: commit_shares_deposit_valid [OF _ h])
  have act': "list_all (\<lambda>a. commit_valid core h (field a ''script'')
      \<and> active_settled core disp nc (field sd ''asset'') da a) (commits_active sd)"
    using act by (auto simp: list_all_iff intro: commit_shares_deposit_valid [OF _ h])
  have r: "fst (for_revoked core h (commits_revoked sd)) = Inr ()"
    using for_revoked_valid_prefix [OF conforms_commits(2) [OF c] rev', where rest = "[]"]
    by (simp add: ok_def)
  have a: "fst (for_active core disp sd (field sd ''deposit_script'') h nc (commits_active sd))
      = Inr ()"
    using for_active_valid_prefix [OF conforms_commits(1) [OF c] conforms_commits(3) [OF c] da
        act', where rest = "[]"]
    by (simp add: ok_def)
  show ?thesis
    by (simp add: fst_is_state_loops [OF c assms(2,3) dv] r a)
qed

theorem is_state_accepts_consistent_witness:
  "built_consistently demo_core demo_dispatcher ''X''
     (channel_state ''XCP'' ''d0'' [''ff''] [(''a1'', ''c1'')] [(''c2'', ''02'')])
   \<and> distinct
       (commit_scripts (channel_state ''XCP'' ''d0'' [''ff''] [(''a1'', ''c1'')] [(''c2'', ''02'')]))
   \<and> asset_registered demo_dispatcher
       (field (channel_state ''XCP'' ''d0'' [''ff''] [(''a1'', ''c1'')] [(''c2'', ''02'')]) ''asset'')
   \<and> fst (is_state demo_core demo_dispatcher
        (channel_state ''XCP'' ''d0'' [''ff''] [(''a1'', ''c1'')] [(''c2'', ''02'')]) ''X'') = Inr ()"
proof -
  have h1: "built_consistently demo_core demo_dispatcher ''X''
      (channel_state ''XCP'' ''d0'' [''ff''] [(''a1'', ''c1'')] [(''c2'', ''02'')])"
    by (simp add: eval_defs)
  have h2: "distinct
      (commit_scripts (channel_state ''XCP'' ''d0'' [''ff''] [(''a1'', ''c1'')] [(''c2'', ''02'')]))"
    by (simp add: demo_defs)
  have h3: "asset_registered demo_dispatcher
      (field (channel_state ''XCP'' ''d0'' [''ff''] [(''a1'', ''c1'')] [(''c2'', ''02'')]) ''asset'')"
    by (simp add: eval_defs)
  show ?thesis
    using h1 h2 h3 is_state_accepts_consistent [OF h1 h2 h3]
    by simp
qed

theorem is_state_consistent_counterexample:
  "built_consistently demo_core demo_dispatcher ''X''
     (channel_state ''XCP'' ''d0'' [] [(''a1'', ''c1'')] [(''c1'', ''01'')])
   \<and> fst (is_state demo_core demo_dispatcher
        (channel_state ''XCP'' ''d0'' [] [(''a1'', ''c1'')] [(''c1'', ''01'')]) ''X'')
       = Inl (AssertionError 218)
   \<and> built_consistently demo_core demo_dispatcher ''X'' (channel_state ''NOPE'' ''d0'' [] [] [])
   \<and> fst (is_state demo_core demo_dispatcher (channel_state ''NOPE'' ''d0'' [] [] []) ''X'')
       = Inl (AssetDoesNotExist (PStr ''NOPE''))"
proof -
  have "built_consistently demo_core demo_dispatcher ''X''
      (channel_state ''XCP'' ''d0'' [] [(''a1'', ''c1'')] [(''c1'', ''01'')])"
    by (simp add: eval_defs)
  moreover have "fst (is_state demo_core demo_dispatcher
      (channel_state ''XCP'' ''d0'' [] [(''a1'', ''c1'')] [(''c1'', ''01'')]) ''X'')
      = Inl (AssertionError 218)"
    by (simp add: is_state_def scripts_of_def len_set_def hashable_def eval_defs)
  moreover have "built_consistently demo_core demo_dispatcher ''X''
      (channel_state ''NOPE'' ''d0'' [] [] [])"
    by (simp add: eval_defs)
  moreover have "fst (is_state demo_core demo_dispatcher (channel_state ''NOPE'' ''d0'' [] [] [])
      ''X'') = Inl (AssetDoesNotExist (PStr ''NOPE''))"
    by (simp add: is_state_def scripts_of_def len_set_def hashable_def eval_defs)
  ultimately show ?thesis
    by simp
qed

text \<open>
  C3, as amended. A state with a revoked entry whose \<open>hash160(revoke_secret)\<close> differs
  from the revoke secret hash of the entry's script never passes \<open>is_state\<close>. The
  error is the assertion of line 241 (the comparison of the two hashes) when the state
  passes the schema, uniqueness, asset and deposit checks, the revoked entries before
  that one are valid, and the entry's script is a valid commit script with the
  deposit's spend secret hash; otherwise an earlier check raises its own error, as in
  the state below, whose asset the ledger does not know.
\<close>

theorem is_state_revocation_mismatch:
  assumes "conforms STATE_SCHEMA sd"
    and "commits_revoked sd = pre @ r # post"
    and "revocation_differs core r"
  shows "fst (is_state core disp sd nc) \<noteq> Inr ()
    \<and> (distinct (commit_scripts sd) \<and> asset_registered disp (field sd ''asset'')
        \<and> deposit_valid core nc (field sd ''deposit_script'') da h
        \<and> list_all (\<lambda>x. commit_valid core h (field x ''script'') \<and> revocation_matches core x) pre
        \<and> commit_valid core h (field r ''script'')
       \<longrightarrow> fst (is_state core disp sd nc) = Inl (AssertionError 241))"
proof
  have "list_ex (revocation_differs core) (commits_revoked sd)"
    using assms(2,3) by simp
  then show "fst (is_state core disp sd nc) \<noteq> Inr ()"
    by (rule is_state_differs_fails)
next
  show "distinct (commit_scripts sd) \<and> asset_registered disp (field sd ''asset'')
        \<and> deposit_valid core nc (field sd ''deposit_script'') da h
        \<and> list_all (\<lambda>x. commit_valid core h (field x ''script'') \<and> revocation_matches core x) pre
        \<and> commit_valid core h (field r ''script'')
       \<longrightarrow> fst (is_state core disp sd nc) = Inl (AssertionError 241)"
  proof (intro impI, elim conjE)
    assume d: "distinct (commit_scripts sd)" and a: "asset_registered disp (field sd ''asset'')"
      and dv: "deposit_valid core nc (field sd ''deposit_script'') da h"
      and p: "list_all (\<lambda>x. commit_valid core h (field x ''script'') \<and> revocation_matches core x) pre"
      and cv: "commit_valid core h (field r ''script'')"
    from conforms_commits(2) [OF assms(1)] assms(2)
    have cp: "list_all (conforms REVOKED_SCHEMA) pre" and cr: "conforms REVOKED_SCHEMA r"
      by simp_all
    have "fst (for_revoked core h (commits_revoked sd)) = Inl (AssertionError 241)"
      by (simp add: assms(2) for_revoked_valid_prefix [OF cp p]
          for_revoked_differs_step [OF cr cv assms(3)])
    then show "fst (is_state core disp sd nc) = Inl (AssertionError 241)"
      by (simp add: fst_is_state_loops [OF assms(1) d a dv])
  qed
qed

theorem is_state_revocation_mismatch_witness:
  "conforms STATE_SCHEMA (channel_state ''XCP'' ''d0'' [] [] [(''c2'', ''02''), (''c1'', ''02'')])
   \<and> commits_revoked (channel_state ''XCP'' ''d0'' [] [] [(''c2'', ''02''), (''c1'', ''02'')])
       = [PDict [(''script'', PStr ''c2''), (''revoke_secret'', PStr ''02'')]]
         @ PDict [(''script'', PStr ''c1''), (''revoke_secret'', PStr ''02'')] # []
   \<and> revocation_differs demo_core
       (PDict [(''script'', PStr ''c1''), (''revoke_secret'', PStr ''02'')])
   \<and> fst (is_state demo_core demo_dispatcher
        (channel_state ''XCP'' ''d0'' [] [] [(''c2'', ''02''), (''c1'', ''02'')]) ''X'')
       = Inl (AssertionError 241)"
proof -
  have h1: "conforms STATE_SCHEMA
      (channel_state ''XCP'' ''d0'' [] [] [(''c2'', ''02''), (''c1'', ''02'')])"
    by (simp add: demo_defs)
  have h2: "commits_revoked (channel_state ''XCP'' ''d0'' [] [] [(''c2'', ''02''), (''c1'', ''02'')])
       = [PDict [(''script'', PStr ''c2''), (''revoke_secret'', PStr ''02'')]]
         @ PDict [(''script'', PStr ''c1''), (''revoke_secret'', PStr ''02'')] # []"
    by (simp add: demo_defs)
  have h3: "revocation_differs demo_core
      (PDict [(''script'', PStr ''c1''), (''revoke_secret'', PStr ''02'')])"
    by (simp add: eval_defs)
  have h4: "distinct
        (commit_scripts (channel_state ''XCP'' ''d0'' [] [] [(''c2'', ''02''), (''c1'', ''02'')]))
    \<and> asset_registered demo_dispatcher
        (field (channel_state ''XCP'' ''d0'' [] [] [(''c2'', ''02''), (''c1'', ''02'')]) ''asset'')
    \<and> deposit_valid demo_core ''X''
        (field (channel_state ''XCP'' ''d0'' [] [] [(''c2'', ''02''), (''c1'', ''02'')])
           ''deposit_script'') ''Xd0'' ''5e''
    \<and> list_all (\<lambda>x. commit_valid demo_core ''5e'' (field x ''script'')
          \<and> revocation_matches demo_core x)
        [PDict [(''script'', PStr ''c2''), (''revoke_secret'', PStr ''02'')]]
    \<and> commit_valid demo_core ''5e''
        (field (PDict [(''script'', PStr ''c1''), (''revoke_secret'', PStr ''02'')]) ''script'')"
    by (simp add: eval_defs)
  show ?thesis
    using h1 h2 h3 h4
      is_state_revocation_mismatch [OF h1 h2 h3, of demo_dispatcher "''X''" "''Xd0''" "''5e''"]
    by blast
qed

theorem is_state_revocation_counterexample:
  "conforms STATE_SCHEMA (channel_state ''NOPE'' ''d0'' [] [] [(''c1'', ''02'')])
   \<and> list_ex (revocation_differs demo_core)
       (commits_revoked (channel_state ''NOPE'' ''d0'' [] [] [(''c1'', ''02'')]))
   \<and> fst (is_state demo_core demo_dispatcher
        (channel_state ''NOPE'' ''d0'' [] [] [(''c1'', ''02'')]) ''X'')
       = Inl (AssetDoesNotExist (PStr ''NOPE''))"
  by (simp add: is_state_def scripts_of_def len_set_def hashable_def eval_defs)

text \<open>
  C4. \<open>is_commit_rawtx\<close> derives the address of the commit script and then that of the
  deposit script under the network and calls \<open>is_send_tx\<close> with the deposit's address
  as expected source and the commit script's address as expected destination. Hence a
  state that is valid but for one active entry, whose \<open>rawtx\<close> is a ledger send of the
  asset from the deposit's address to an address other than that of the entry's script,
  fails \<open>is_state\<close> with \<open>DestinationMissmatch\<close> (expected address, found address).
\<close>

theorem is_state_destination_mismatch:
  assumes "conforms STATE_SCHEMA sd"
    and "distinct (commit_scripts sd)"
    and "asset_registered disp (field sd ''asset'')"
    and "deposit_valid core nc (field sd ''deposit_script'') da h"
    and "list_all (\<lambda>x. commit_valid core h (field x ''script'') \<and> revocation_matches core x)
           (commits_revoked sd)"
    and "commits_active sd = pre @ a # post"
    and "list_all (\<lambda>x. commit_valid core h (field x ''script'')
            \<and> active_settled core disp nc (field sd ''asset'') da x) pre"
    and "commit_valid core h (field a ''script'')"
    and "script_address core (field a ''script'') nc = Inr ca"
    and "ledger_send disp (field a ''rawtx'') (field sd ''asset'') da paid_to"
    and "paid_to \<noteq> ca"
  shows "(\<forall>rawtx asset d c vs address_c address_d.
            script_address core c nc = Inr address_c \<and> script_address core d nc = Inr address_d \<longrightarrow>
            is_commit_rawtx core disp rawtx asset d c nc vs =
              (case is_send_tx core disp rawtx asset (Some address_d) (Some address_c) vs of
                 (r, t) \<Rightarrow>
                   (map_sum id (\<lambda>_. ()) r, Script_address c nc # Script_address d nc # t)))
    \<and> fst (is_state core disp sd nc) = Inl (DestinationMissmatch ca paid_to)"
proof
  show "\<forall>rawtx asset d c vs address_c address_d.
            script_address core c nc = Inr address_c \<and> script_address core d nc = Inr address_d \<longrightarrow>
            is_commit_rawtx core disp rawtx asset d c nc vs =
              (case is_send_tx core disp rawtx asset (Some address_d) (Some address_c) vs of
                 (r, t) \<Rightarrow>
                   (map_sum id (\<lambda>_. ()) r, Script_address c nc # Script_address d nc # t))"
    by (intro allI impI, elim conjE) (rule is_commit_rawtx_send)
next
  from conforms_commits(1) [OF assms(1)] assms(6)
  have cp: "list_all (conforms ACTIVE_SCHEMA) pre" and ca: "conforms ACTIVE_SCHEMA a"
    by simp_all
  note asset = conforms_commits(3) [OF assms(1)]
  from assms(4) have da: "script_address core (field sd ''deposit_script'') nc = Inr da"
    by (simp add: deposit_valid_def)
  have r: "fst (for_revoked core h (commits_revoked sd)) = Inr ()"
    using for_revoked_valid_prefix [OF conforms_commits(2) [OF assms(1)] assms(5), where rest = "[]"]
    by (simp add: ok_def)
  have "fst (for_active core disp sd (field sd ''deposit_script'') h nc (commits_active sd))
      = Inl (DestinationMissmatch ca paid_to)"
    by (simp add: assms(6) for_active_valid_prefix [OF cp asset da assms(7)]
        for_active_destination_step [OF ca asset assms(8) da assms(9,10,11)])
  then show "fst (is_state core disp sd nc) = Inl (DestinationMissmatch ca paid_to)"
    by (simp add: fst_is_state_loops [OF assms(1,2,3,4)] r)
qed

theorem is_state_destination_mismatch_witness:
  "conforms STATE_SCHEMA
     (channel_state ''XCP'' ''d0'' [] [(''a1'', ''c1''), (''a3'', ''c2'')] [])
   \<and> ledger_send demo_dispatcher (PStr ''a3'') (PStr ''XCP'') ''Xd0'' ''Xee''
   \<and> script_address demo_core (PStr ''c2'') ''X'' = Inr ''Xc2''
   \<and> fst (is_state demo_core demo_dispatcher
        (channel_state ''XCP'' ''d0'' [] [(''a1'', ''c1''), (''a3'', ''c2'')] []) ''X'')
       = Inl (DestinationMissmatch ''Xc2'' ''Xee'')"
proof -
  let ?S = "channel_state ''XCP'' ''d0'' [] [(''a1'', ''c1''), (''a3'', ''c2'')] []"
  let ?a = "PDict [(''rawtx'', PStr ''a3''), (''script'', PStr ''c2'')]"
  have h1: "conforms STATE_SCHEMA ?S"
    by (simp add: demo_defs)
  have h2: "distinct (commit_scripts ?S)"
    by (simp add: demo_defs)
  have h3: "asset_registered demo_dispatcher (field ?S ''asset'')"
    by (simp add: eval_defs)
  have h4: "deposit_valid demo_core ''X'' (field ?S ''deposit_script'') ''Xd0'' ''5e''"
    by (simp add: eval_defs)
  have h5: "list_all (\<lambda>x. commit_valid demo_core ''5e'' (field x ''script'')
      \<and> revocation_matches demo_core x) (commits_revoked ?S)"
    by (simp add: eval_defs)
  have h6: "commits_active ?S
      = [PDict [(''rawtx'', PStr ''a1''), (''script'', PStr ''c1'')]] @ ?a # []"
    by (simp add: demo_defs)
  have h7: "list_all (\<lambda>x. commit_valid demo_core ''5e'' (field x ''script'')
      \<and> active_settled demo_core demo_dispatcher ''X'' (field ?S ''asset'') ''Xd0'' x)
      [PDict [(''rawtx'', PStr ''a1''), (''script'', PStr ''c1'')]]"
    by (simp add: eval_defs)
  have h8: "commit_valid demo_core ''5e'' (field ?a ''script'')"
    by (simp add: eval_defs)
  have h9: "script_address demo_core (field ?a ''script'') ''X'' = Inr ''Xc2''"
    by (simp add: eval_defs)
  have h10: "ledger_send demo_dispatcher (field ?a ''rawtx'') (field ?S ''asset'') ''Xd0'' ''Xee''"
    by (simp add: eval_defs)
  have h11: "''Xee'' \<noteq> ''Xc2''"
    by simp
  have f: "field ?a ''rawtx'' = PStr ''a3''" "field ?a ''script'' = PStr ''c2''"
    "field ?S ''asset'' = PStr ''XCP''"
    by (simp_all add: demo_defs)
  show ?thesis
    using h1 h9 h10 is_state_destination_mismatch [OF h1 h2 h3 h4 h5 h6 h7 h8 h9 h10 h11]
    unfolding f by blast
qed

subsection \<open>The field \<open>commits_requested\<close>\<close>

lemma lowercase_even_hex_conforms:
  assumes "lowercase_even_hex s"
  shows "conforms TYPE_HEX (PStr s)"
proof -
  from assms have "\<forall>c\<in>set s. c \<in> set ''0123456789abcdef''"
    unfolding lowercase_even_hex_def list_all_iff by (rule conjunct1)
  then have "set s \<subseteq> set ''0123456789abcdef''"
    by blast
  then have "re_search TYPE_HEX_PATTERN s"
    unfolding re_search_TYPE_HEX by blast
  then show ?thesis
    by (simp add: TYPE_HEX_def)
qed

lemma conforms_with_commits_requested:
  assumes "conforms STATE_SCHEMA sd" and "list_all lowercase_even_hex requested"
  shows "conforms STATE_SCHEMA (with_commits_requested sd requested)"
proof -
  from assms(1) obtain kvs where sd: "sd = PDict kvs"
    by (cases sd) (simp_all add: STATE_SCHEMA_def)
  have new: "conforms (SArray TYPE_HEX) (PList (map PStr requested))"
    using assms(2) by (simp add: list_all_iff lowercase_even_hex_conforms)
  have keys: "fst ` set (AList.update ''commits_requested'' v kvs)
      = insert ''commits_requested'' (fst ` set kvs)" for v
    by (simp add: dom_update)
  have extra: "list_all (\<lambda>(k, x). k \<in> fst ` set props) (AList.update ''commits_requested'' v kvs)"
    if "list_all (\<lambda>(k, x). k \<in> fst ` set props) kvs" "''commits_requested'' \<in> fst ` set props"
    for v and props :: "(string \<times> schema) list"
  proof -
    have "k \<in> fst ` set props" if "(k, x) \<in> set (AList.update ''commits_requested'' v kvs)" for k x
    proof -
      from that have "k \<in> fst ` set (AList.update ''commits_requested'' v kvs)"
        by force
      then have "k = ''commits_requested'' \<or> k \<in> fst ` set kvs"
        by (simp add: keys)
      with \<open>list_all (\<lambda>(k, x). k \<in> fst ` set props) kvs\<close> \<open>''commits_requested'' \<in> fst ` set props\<close>
      show ?thesis
        by (auto simp: list_all_iff)
    qed
    then show ?thesis
      by (auto simp: list_all_iff)
  qed
  from assms(1) have "list_all (\<lambda>(k, x). k \<in> fst ` set
      [(''asset'', SString None), (''deposit_script'', TYPE_HEX),
       (''commits_requested'', SArray TYPE_HEX), (''commits_active'', SArray ACTIVE_SCHEMA),
       (''commits_revoked'', SArray REVOKED_SCHEMA)]) kvs"
    by (simp add: sd STATE_SCHEMA_def)
  then have e: "list_all (\<lambda>(k, x). k \<in> fst ` set
      [(''asset'', SString None), (''deposit_script'', TYPE_HEX),
       (''commits_requested'', SArray TYPE_HEX), (''commits_active'', SArray ACTIVE_SCHEMA),
       (''commits_revoked'', SArray REVOKED_SCHEMA)])
      (AList.update ''commits_requested'' (PList (map PStr requested)) kvs)"
    by (rule extra) simp
  show ?thesis
    using assms(1) new e
    by (simp add: sd with_commits_requested_def STATE_SCHEMA_def update_conv' keys)
qed

lemma getitem_with_commits_requested:
  "k \<noteq> ''commits_requested'' \<Longrightarrow> getitem (with_commits_requested sd requested) k = getitem sd k"
  by (cases sd) (simp_all add: with_commits_requested_def getitem_def update_conv')

lemma for_active_asset:
  assumes "getitem sd' ''asset'' = getitem sd ''asset''"
  shows "for_active core disp sd' d h nc xs = for_active core disp sd d h nc xs"
  by (induction xs) (simp_all add: for_active.simps(2) assms cong: if_cong)

lemma is_state_with_commits_requested:
  assumes "conforms STATE_SCHEMA sd" and "list_all lowercase_even_hex requested"
  shows "is_state core disp (with_commits_requested sd requested) nc = is_state core disp sd nc"
proof -
  have f: "field (with_commits_requested sd requested) k = field sd k"
    if "k \<noteq> ''commits_requested''" for k
    using that by (simp add: field_def getitem_with_commits_requested)
  have a: "for_active core disp (with_commits_requested sd requested) d h nc xs
      = for_active core disp sd d h nc xs" for d h xs
    by (rule for_active_asset) (simp add: getitem_with_commits_requested)
  show ?thesis
    by (simp add: is_state_conforms [OF assms(1)]
        is_state_conforms [OF conforms_with_commits_requested [OF assms]]
        commit_scripts_def commits_active_def commits_revoked_def f a)
qed

text \<open>
  C9. \<open>is_state\<close> reads \<open>commits_requested\<close> in the schema check only: when a
  state passes, the state with \<open>commits_requested\<close> replaced by any list of lower-case
  hexadecimal strings of even length passes too, with the same calls made, whether or
  not those strings are commit scripts.
\<close>

theorem is_state_ignores_commits_requested:
  assumes "fst (is_state core disp sd nc) = Inr ()"
    and "list_all lowercase_even_hex requested"
  shows "fst (is_state core disp (with_commits_requested sd requested) nc) = Inr ()
    \<and> snd (is_state core disp (with_commits_requested sd requested) nc)
        = snd (is_state core disp sd nc)"
proof -
  have "conforms STATE_SCHEMA sd"
    using assms(1) by (cases "conforms STATE_SCHEMA sd") (simp_all add: is_state_not_conforms)
  then show ?thesis
    using assms by (simp add: is_state_with_commits_requested)
qed

theorem is_state_ignores_commits_requested_witness:
  "fst (is_state demo_core demo_dispatcher
     (channel_state ''XCP'' ''d0'' [''ff''] [(''a1'', ''c1'')] [(''c2'', ''02'')]) ''X'') = Inr ()
   \<and> list_all lowercase_even_hex [''00'', ''abcd'']
   \<and> validate_commit_script demo_core (PStr ''abcd'') \<noteq> Inr ()
   \<and> with_commits_requested
       (channel_state ''XCP'' ''d0'' [''ff''] [(''a1'', ''c1'')] [(''c2'', ''02'')]) [''00'', ''abcd'']
      = channel_state ''XCP'' ''d0'' [''00'', ''abcd''] [(''a1'', ''c1'')] [(''c2'', ''02'')]
   \<and> fst (is_state demo_core demo_dispatcher
       (channel_state ''XCP'' ''d0'' [''00'', ''abcd''] [(''a1'', ''c1'')] [(''c2'', ''02'')]) ''X'')
      = Inr ()"
proof -
  have h1: "fst (is_state demo_core demo_dispatcher
     (channel_state ''XCP'' ''d0'' [''ff''] [(''a1'', ''c1'')] [(''c2'', ''02'')]) ''X'') = Inr ()"
    by (simp add: is_state_def scripts_of_def len_set_def hashable_def eval_defs)
  have h2: "list_all lowercase_even_hex [''00'', ''abcd'']"
    by (simp add: lowercase_even_hex_def)
  have h3: "validate_commit_script demo_core (PStr ''abcd'') \<noteq> Inr ()"
    by (simp add: demo_core_def)
  have h4: "with_commits_requested
       (channel_state ''XCP'' ''d0'' [''ff''] [(''a1'', ''c1'')] [(''c2'', ''02'')]) [''00'', ''abcd'']
      = channel_state ''XCP'' ''d0'' [''00'', ''abcd''] [(''a1'', ''c1'')] [(''c2'', ''02'')]"
    by (simp add: with_commits_requested_def channel_state_def)
  show ?thesis
    using h1 h2 h3 h4 is_state_ignores_commits_requested [OF h1 h2]
    by simp
qed

subsection \<open>Signatures are not verified\<close>

lemma and_then_Inl [simp]: "and_then (Inl e, t) f = (Inl e, t)"
  by (simp add: and_then_def)

lemma and_then_Inr [simp]: "and_then (Inr x, t) f = (fst (f x), t @ snd (f x))"
  by (simp add: and_then_def split: prod.splits)

lemma is_send_tx_unsigned:
  "is_send_tx (core\<lparr>load_tx := f\<rparr>) (disp\<lparr>getrawtransaction := g\<rparr>) rawtx ea es ed False
     = is_send_tx core disp rawtx ea es ed False"
  by (simp add: is_send_tx_def cong: if_cong option.case_cong)

lemma is_commit_rawtx_unsigned:
  "is_commit_rawtx (core\<lparr>load_tx := f\<rparr>) (disp\<lparr>getrawtransaction := g\<rparr>) rawtx asset d c nc False
     = is_commit_rawtx core disp rawtx asset d c nc False"
  by (simp add: is_commit_rawtx_def is_send_tx_unsigned)

lemma for_active_unsigned:
  "for_active (core\<lparr>load_tx := f\<rparr>) (disp\<lparr>getrawtransaction := g\<rparr>) sd d h nc xs
     = for_active core disp sd d h nc xs"
  by (induction xs) (simp_all add: for_active.simps(2) is_commit_rawtx_unsigned cong: if_cong)

lemma for_revoked_unsigned:
  "for_revoked (core\<lparr>load_tx := f\<rparr>) h xs = for_revoked core h xs"
  by (induction xs) (simp_all add: for_revoked.simps(2) cong: if_cong)

lemma is_asset_unsigned:
  "is_asset (disp\<lparr>getrawtransaction := g\<rparr>) asset = is_asset disp asset"
  by (simp add: is_asset_def)

lemma is_state_unsigned:
  "is_state (core\<lparr>load_tx := f\<rparr>) (disp\<lparr>getrawtransaction := g\<rparr>) sd nc
     = is_state core disp sd nc"
  by (simp add: is_state_def for_active_unsigned for_revoked_unsigned is_asset_unsigned
      cong: if_cong)

lemma trace_and_then:
  assumes "\<forall>c\<in>set (snd m). P c" and "\<And>x. \<forall>c\<in>set (snd (f x)). P c"
  shows "\<forall>c\<in>set (snd (and_then m f)). P c"
proof (cases m)
  case (Pair r t)
  show ?thesis
  proof (cases r)
    case (Inl e)
    with Pair assms(1) show ?thesis
      by (simp add: and_then_def)
  next
    case (Inr x)
    with Pair assms(1) assms(2) [of x] show ?thesis
      by (cases "f x") (auto simp: and_then_def)
  qed
qed

lemma trace_plain: "\<forall>c\<in>set (snd (plain r)). P c"
  by (simp add: plain_def)

lemma trace_ok: "\<forall>c\<in>set (snd (ok x)). P c"
  by (simp add: ok_def)

lemma trace_raise: "\<forall>c\<in>set (snd (raise e)). P c"
  by (simp add: raise_def)

lemma trace_call: "P c \<Longrightarrow> \<forall>c'\<in>set (snd (call c r)). P c'"
  by (simp add: call_def)

lemma trace_if:
  "\<forall>c\<in>set (snd a). P c \<Longrightarrow> \<forall>c\<in>set (snd b). P c \<Longrightarrow> \<forall>c\<in>set (snd (if q then a else b)). P c"
  by simp

lemmas trace_rules = trace_and_then trace_plain trace_ok trace_raise trace_call trace_if

lemma trace_is_asset: "\<forall>c\<in>set (snd (is_asset disp asset)). c \<notin> range Load_tx"
  unfolding is_asset_def by (intro trace_rules) auto

lemma trace_is_send_tx_unsigned:
  "\<forall>c\<in>set (snd (is_send_tx core disp rawtx ea es ed False)). c \<notin> range Load_tx"
proof (cases "get_tx_info disp rawtx")
  case (Inl e)
  then show ?thesis
    by (auto simp: is_send_tx_def)
next
  case (Inr x)
  obtain s d b f payload where x: "x = (s, d, b, f, payload)"
    by (cases x)
  show ?thesis
  proof (cases "payload = None \<or> payload = Some []")
    case True
    with Inr x show ?thesis
      by (auto simp: is_send_tx_def raise_def)
  next
    case False
    then obtain p where p: "payload = Some p" "p \<noteq> []"
      by auto
    show ?thesis
    proof (cases "unpack disp p")
      case (Inl e)
      with Inr x p show ?thesis
        by (auto simp: is_send_tx_def)
    next
      case u: (Inr y)
      obtain m un where "y = (m, un)"
        by (cases y)
      with Inr x p u show ?thesis
        by (cases "ea = PNone"; cases "getitem un ''asset''"; simp add: is_send_tx_def)
          (auto simp: raise_def ok_def)
    qed
  qed
qed

lemma trace_is_commit_rawtx_unsigned:
  "\<forall>c\<in>set (snd (is_commit_rawtx core disp rawtx asset d c' nc False)). c \<notin> range Load_tx"
  unfolding is_commit_rawtx_def
  by (intro trace_rules trace_is_send_tx_unsigned) auto

lemma trace_for_revoked: "\<forall>c\<in>set (snd (for_revoked core h xs)). c \<notin> range Load_tx"
proof (induction xs)
  case Nil
  show ?case by (simp add: ok_def)
next
  case (Cons r rs)
  show ?case
    unfolding for_revoked.simps(2)
    by (intro trace_rules Cons.IH) auto
qed

lemma trace_for_active:
  "\<forall>c\<in>set (snd (for_active core disp sd d h nc xs)). c \<notin> range Load_tx"
proof (induction xs)
  case Nil
  show ?case by (simp add: ok_def)
next
  case (Cons a rest)
  show ?case
    unfolding for_active.simps(2)
    by (intro trace_rules trace_is_commit_rawtx_unsigned Cons.IH) auto
qed

lemma trace_is_state: "\<forall>c\<in>set (snd (is_state core disp sd nc)). c \<notin> range Load_tx"
  unfolding is_state_def
  by (intro trace_rules trace_is_asset trace_for_revoked trace_for_active) auto

text \<open>
  C10. \<open>is_state\<close> verifies no signature: it calls \<open>is_commit_rawtx\<close> with
  \<open>validate_signature\<close> false, so its result and its calls do not depend on what
  loading a transaction and counting its bad signatures would give, and no transaction
  is ever loaded. A state whose active \<open>rawtx\<close> has a bad signature passes when it
  passes the other checks.
\<close>

theorem is_state_no_signature_check:
  "is_state (core\<lparr>load_tx := f\<rparr>) (disp\<lparr>getrawtransaction := g\<rparr>) sd nc
     = is_state core disp sd nc
   \<and> (\<forall>rawtx. Load_tx rawtx \<notin> set (snd (is_state core disp sd nc)))"
  using trace_is_state [of core disp sd nc] by (auto simp: is_state_unsigned)

theorem is_state_no_signature_check_witness:
  "fst (is_commit_rawtx demo_core demo_dispatcher (PStr ''a1'') (PStr ''XCP'') (PStr ''d0'')
     (PStr ''c1'') ''X'' True) = Inl (InvalidSignature (PStr ''a1''))
   \<and> fst (is_state (demo_core\<lparr>load_tx := \<lambda>get_rawtx rawtx. Inr 0\<rparr>) demo_dispatcher
       (channel_state ''XCP'' ''d0'' [''ff''] [(''a1'', ''c1'')] [(''c2'', ''02'')]) ''X'') = Inr ()
   \<and> fst (is_state demo_core demo_dispatcher
       (channel_state ''XCP'' ''d0'' [''ff''] [(''a1'', ''c1'')] [(''c2'', ''02'')]) ''X'') = Inr ()
   \<and> (\<forall>rawtx. Load_tx rawtx \<notin> set (snd (is_state demo_core demo_dispatcher
       (channel_state ''XCP'' ''d0'' [''ff''] [(''a1'', ''c1'')] [(''c2'', ''02'')]) ''X'')))"
proof -
  have h1: "fst (is_commit_rawtx demo_core demo_dispatcher (PStr ''a1'') (PStr ''XCP'')
      (PStr ''d0'') (PStr ''c1'') ''X'' True) = Inl (InvalidSignature (PStr ''a1''))"
    by (simp add: eval_defs)
  have h2: "fst (is_state demo_core demo_dispatcher
      (channel_state ''XCP'' ''d0'' [''ff''] [(''a1'', ''c1'')] [(''c2'', ''02'')]) ''X'') = Inr ()"
    by (simp add: is_state_def scripts_of_def len_set_def hashable_def eval_defs)
  have h3: "getrawtransaction demo_dispatcher = (\<lambda>v. Inl (CollaboratorError ''unknown transaction''))"
    by (simp add: demo_dispatcher_def)
  have "demo_dispatcher\<lparr>getrawtransaction := getrawtransaction demo_dispatcher\<rparr> = demo_dispatcher"
    by simp
  with h1 h2 show ?thesis
    using is_state_no_signature_check [where core = demo_core
        and f = "\<lambda>get_rawtx rawtx. Inr 0" and disp = demo_dispatcher
        and g = "getrawtransaction demo_dispatcher"
        and sd = "channel_state ''XCP'' ''d0'' [''ff''] [(''a1'', ''c1'')] [(''c2'', ''02'')]"
        and nc = "''X''"]
    by simp
qed

subsection \<open>The order of the checks\<close>

text \<open>Steps in sequence, and each validator as the steps of its check.\<close>

lemma run_steps_append:
  "run_steps (xs @ ys) = and_then (run_steps xs) (\<lambda>_. run_steps ys)"
proof (induction xs)
  case Nil
  show ?case by simp
next
  case (Cons x xs)
  obtain c e where x: "x = (c, e)"
    by (cases x)
  show ?case
  proof (cases e)
    case None
    obtain r t where rt: "run_steps xs = (r, t)"
      by (cases "run_steps xs")
    show ?thesis
      using Cons.IH None x rt
      by (cases r) (simp_all split: prod.splits)
  next
    case (Some err)
    with x show ?thesis by simp
  qed
qed

lemma for_revoked_run_steps_step:
  assumes "conforms REVOKED_SCHEMA r"
  shows "for_revoked core h (r # rest)
    = and_then (run_steps (revoked_steps core h r)) (\<lambda>_. for_revoked core h rest)"
  by (cases "validate_commit_script core (field r ''script'')";
      cases "get_commit_spend_secret_hash core (field r ''script'')";
      cases "get_commit_revoke_secret_hash core (field r ''script'')";
      cases "hash160hex core (field r ''revoke_secret'')")
    (simp_all add: for_revoked_step [OF assms] revoked_steps_def Let_def raised_def returned_def
      require_def raise_def)

lemma for_revoked_run_steps:
  assumes "list_all (conforms REVOKED_SCHEMA) rs"
  shows "for_revoked core h rs = run_steps (concat (map (revoked_steps core h) rs))"
  using assms
  by (induction rs) (simp_all add: ok_def run_steps_append for_revoked_run_steps_step)


lemma is_commit_rawtx_run_steps:
  assumes "asset \<noteq> PNone"
  shows "is_commit_rawtx core disp rawtx asset d s nc False
    = run_steps (commit_tx_steps core disp nc asset d s rawtx)"
proof (cases "script_address core s nc")
  case (Inl e)
  then show ?thesis
    by (simp add: is_commit_rawtx_def commit_tx_steps_def Let_def raised_def)
next
  case ca: (Inr commit_address)
  show ?thesis
  proof (cases "script_address core d nc")
    case (Inl e)
    with ca show ?thesis
      by (simp add: is_commit_rawtx_def commit_tx_steps_def Let_def raised_def)
  next
    case da: (Inr deposit_address)
    show ?thesis
    proof (cases "get_tx_info disp rawtx")
      case (Inl e)
      with ca da show ?thesis
        by (simp add: is_commit_rawtx_def is_send_tx_def commit_tx_steps_def Let_def raised_def)
    next
      case info: (Inr x)
      obtain source destination b f payload where x: "x = (source, destination, b, f, payload)"
        by (cases x)
      show ?thesis
      proof (cases "payload = None \<or> payload = Some []")
        case True
        with ca da info x show ?thesis
          by (auto simp: is_commit_rawtx_def is_send_tx_def commit_tx_steps_def Let_def raised_def
              returned_def require_def raise_def)
      next
        case False
        then obtain p where p: "payload = Some p" "p \<noteq> []"
          by auto
        show ?thesis
        proof (cases "unpack disp p")
          case (Inl e)
          with ca da info x p show ?thesis
            by (simp add: is_commit_rawtx_def is_send_tx_def commit_tx_steps_def Let_def
                raised_def returned_def require_def)
        next
          case u: (Inr y)
          obtain m un where y: "y = (m, un)"
            by (cases y)
          show ?thesis
            using assms ca da info x p u y
            by (cases "getitem un ''asset''")
              (simp_all add: is_commit_rawtx_def is_send_tx_def commit_tx_steps_def Let_def
                raised_def returned_def require_def raise_def ok_def)
        qed
      qed
    qed
  qed
qed

lemma for_active_run_steps_step:
  assumes "conforms ACTIVE_SCHEMA a" and "getitem sd ''asset'' = Inr asset" and "asset \<noteq> PNone"
  shows "for_active core disp sd d h nc (a # rest)
    = and_then (run_steps (active_steps core disp nc asset d h a))
        (\<lambda>_. for_active core disp sd d h nc rest)"
proof -
  obtain r t where rt: "run_steps (commit_tx_steps core disp nc asset d (field a ''script'')
      (field a ''rawtx'')) = (r, t)"
    by (cases "run_steps (commit_tx_steps core disp nc asset d (field a ''script'')
      (field a ''rawtx''))")
  show ?thesis
    by (cases "validate_commit_script core (field a ''script'')";
        cases "get_commit_spend_secret_hash core (field a ''script'')"; cases r)
      (simp_all add: for_active_step [OF assms(1,2)] active_steps_def Let_def raised_def
        returned_def require_def raise_def is_commit_rawtx_run_steps [OF assms(3)] rt)
qed

lemma for_active_run_steps:
  assumes "list_all (conforms ACTIVE_SCHEMA) xs" and "getitem sd ''asset'' = Inr asset"
    and "asset \<noteq> PNone"
  shows "for_active core disp sd d h nc xs
    = run_steps (concat (map (active_steps core disp nc asset d h) xs))"
  using assms(1)
  by (induction xs)
    (simp_all add: ok_def run_steps_append for_active_run_steps_step [OF _ assms(2,3)])

lemma is_asset_run_steps:
  assumes "field sd ''asset'' = PStr a"
  shows "is_asset disp (field sd ''asset'') = run_steps (asset_steps disp sd)"
proof (cases "get_assets disp")
  case (Inl e)
  then show ?thesis
    by (simp add: assms is_asset_def is_string_def asset_steps_def Let_def raised_def)
next
  case (Inr entries)
  then show ?thesis
    by (cases "map_raising (\<lambda>e. getitem e ''asset_name'') entries")
      (simp_all add: assms is_asset_def is_string_def asset_steps_def Let_def raised_def
        returned_def require_def raise_def ok_def)
qed

text \<open>
  C6. \<open>is_state\<close> makes its checks in the order schema, uniqueness of the scripts,
  asset, deposit script, revoked entries, active entries: its result is the error of the
  first violated step of \<open>state_steps\<close>, which lists the checks in that order, and
  the calls it has made are those of the steps up to that one, so that no later check
  has run. Without a violated step it succeeds.
\<close>

theorem is_state_checks_in_order:
  "is_state core disp sd nc = run_steps (state_steps core disp nc sd)"
proof (cases "conforms STATE_SCHEMA sd")
  case False
  then show ?thesis
    by (simp add: is_state_not_conforms state_steps_def schema_steps_def require_def Let_def)
next
  case True
  from conforms_commits [OF True] obtain a where
    act: "list_all (conforms ACTIVE_SCHEMA) (commits_active sd)" and
    rev: "list_all (conforms REVOKED_SCHEMA) (commits_revoked sd)" and
    asset: "getitem sd ''asset'' = Inr (field sd ''asset'')" and
    a: "field sd ''asset'' = PStr a"
    by blast
  have ne: "field sd ''asset'' \<noteq> PNone"
    by (simp add: a)
  note loops = for_revoked_run_steps [OF rev] for_active_run_steps [OF act asset ne]
  show ?thesis
  proof (cases "distinct (commit_scripts sd)")
    case False
    with True show ?thesis
      by (simp add: is_state_conforms state_steps_def schema_steps_def unique_steps_def
          require_def Let_def)
  next
    case d: True
    have "is_state core disp sd nc =
      and_then (run_steps (asset_steps disp sd)) (\<lambda>_.
      and_then (run_steps (deposit_steps core nc sd)) (\<lambda>_.
      and_then (run_steps (concat (map (revoked_steps core
            (returned [] (get_deposit_spend_secret_hash core (field sd ''deposit_script''))))
          (commits_revoked sd)))) (\<lambda>_.
      run_steps (concat (map (active_steps core disp nc (field sd ''asset'')
          (field sd ''deposit_script'')
          (returned [] (get_deposit_spend_secret_hash core (field sd ''deposit_script''))))
        (commits_active sd))))))"
      using d
      by (cases "script_address core (field sd ''deposit_script'') nc";
          cases "get_deposit_spend_secret_hash core (field sd ''deposit_script'')";
          cases "validate_deposit_script core (field sd ''deposit_script'')";
          cases "run_steps (asset_steps disp sd)";
          cases "fst (run_steps (asset_steps disp sd))")
        (simp_all add: is_state_conforms [OF True] is_asset_run_steps [OF a] loops
          deposit_steps_def Let_def raised_def returned_def)
    also have "\<dots> = run_steps (state_steps core disp nc sd)"
      using True d
      by (simp add: state_steps_def schema_steps_def unique_steps_def require_def Let_def
          run_steps_append)
    finally show ?thesis .
  qed
qed


lemmas step_defs =
  state_steps_def schema_steps_def unique_steps_def asset_steps_def deposit_steps_def
  revoked_steps_def active_steps_def commit_tx_steps_def raised_def returned_def require_def
  Let_def

theorem is_state_checks_in_order_witness:
  "fst (run_steps (revoked_steps demo_core ''5e''
       (PDict [(''script'', PStr ''c1''), (''revoke_secret'', PStr ''02'')])))
     = Inl (AssertionError 241)
   \<and> fst (run_steps (active_steps demo_core demo_dispatcher ''X'' (PStr ''XCP'') (PStr ''d0'') ''5e''
       (PDict [(''rawtx'', PStr ''a3''), (''script'', PStr ''c2'')])))
     = Inl (DestinationMissmatch ''Xc2'' ''Xee'')
   \<and> is_state demo_core demo_dispatcher
       (channel_state ''XCP'' ''d0'' [] [(''a3'', ''c2'')] [(''c1'', ''02'')]) ''X''
     = (Inl (AssertionError 241),
        [Get_assets, Script_address (PStr ''d0'') ''X'',
         Get_deposit_spend_secret_hash (PStr ''d0''), Validate_deposit_script (PStr ''d0''),
         Validate_commit_script (PStr ''c1''), Get_commit_spend_secret_hash (PStr ''c1''),
         Get_commit_revoke_secret_hash (PStr ''c1''), Hash160hex (PStr ''02'')])"
  using is_state_checks_in_order [of demo_core demo_dispatcher
      "channel_state ''XCP'' ''d0'' [] [(''a3'', ''c2'')] [(''c1'', ''02'')]" "''X''"]
  by (simp add: step_defs demo_defs)

end
